theory Spec2Isabelle
  imports Main "HOL-Library.Word" "HOL-Library.Sublist"
begin

section \<open>Text and bytes\<close>

text \<open>
  A Python \<open>str\<close> is a sequence of code points (lone surrogates included), a \<open>bytes\<close>
  object a sequence of octets.
\<close>

type_synonym byte = "8 word"
type_synonym pystr = "nat list"

definition of_ascii :: "string \<Rightarrow> pystr" where
  "of_ascii s = map of_char s"

text \<open>
  The exception classes the program meets. All of them derive from \<open>Exception\<close>;
  \<open>LibraryError\<close> stands for whatever smpplib, the socket layer or the telegram
  package raise (tagged with the class name).
\<close>

datatype exn =
    ValueError
  | AttributeError
  | UnboundLocalError
  | UnicodeEncodeError
  | UnicodeDecodeError
  | QueueEmpty
  | LibraryError string

text \<open>
  The values an attribute of a received PDU object can hold: \<open>None\<close>, an integer,
  a \<open>str\<close> or a \<open>bytes\<close> object. A PDU is the map from its attribute names to
  their values.
\<close>

datatype pyval = PyNone | PyInt int | PyStr pystr | PyBytes "byte list"

type_synonym pdu = "string \<rightharpoonup> pyval"

definition is_surrogate :: "nat \<Rightarrow> bool" where
  "is_surrogate c = (0xD800 \<le> c \<and> c \<le> 0xDFFF)"

definition is_high_surrogate :: "nat \<Rightarrow> bool" where
  "is_high_surrogate c = (0xD800 \<le> c \<and> c \<le> 0xDBFF)"

definition is_low_surrogate :: "nat \<Rightarrow> bool" where
  "is_low_surrogate c = (0xDC00 \<le> c \<and> c \<le> 0xDFFF)"

definition be16 :: "nat \<Rightarrow> byte list" where
  "be16 u = [of_nat (u div 256), of_nat (u mod 256)]"

definition unit16 :: "byte \<Rightarrow> byte \<Rightarrow> nat" where
  "unit16 hi lo = unat hi * 256 + unat lo"

definition join_surrogates :: "nat \<Rightarrow> nat \<Rightarrow> nat" where
  "join_surrogates hi lo = 0x10000 + (hi - 0xD800) * 0x400 + (lo - 0xDC00)"

definition encode_code_point :: "nat \<Rightarrow> byte list" where
  "encode_code_point c =
     (if c < 0x10000 then be16 c
      else be16 (0xD800 + (c - 0x10000) div 0x400) @ be16 (0xDC00 + (c - 0x10000) mod 0x400))"

text \<open>\<open>s.encode('utf-16-be')\<close>: strict, a surrogate code point raises.\<close>

fun utf16be_encode :: "pystr \<Rightarrow> exn + byte list" where
  "utf16be_encode [] = Inr []"
| "utf16be_encode (c # cs) =
     (if is_surrogate c then Inl UnicodeEncodeError
      else case utf16be_encode cs of
             Inl e \<Rightarrow> Inl e
           | Inr bs \<Rightarrow> Inr (encode_code_point c @ bs))"

text \<open>
  The \<open>errors\<close> argument of \<open>bytes.decode\<close>. At an undecodable range the codec calls
  the handler: \<open>strict\<close> raises, \<open>ignore\<close> produces nothing and resumes after the
  range, \<open>replace\<close> produces U+FFFD and resumes after the range.
\<close>

datatype errors = Strict | Ignore | Replace

definition emit :: "nat \<Rightarrow> exn + pystr \<Rightarrow> exn + pystr" where
  "emit c r = (case r of Inl e \<Rightarrow> Inl e | Inr s \<Rightarrow> Inr (c # s))"

definition on_error :: "errors \<Rightarrow> exn + pystr \<Rightarrow> exn + pystr" where
  "on_error m r =
     (case m of Strict \<Rightarrow> Inl UnicodeDecodeError | Ignore \<Rightarrow> r | Replace \<Rightarrow> emit 0xFFFD r)"

text \<open>
  \<open>b.decode('utf-16-be', errors=m)\<close>, after CPython's decoder: a unit that is not a
  surrogate is a character; a low surrogate first is an error of two bytes; a high
  surrogate followed by a low one is one character; a high surrogate followed by another
  unit is an error of two bytes (the next unit is read again); a high surrogate with
  fewer than two bytes behind it, or a single trailing byte, is an error that reaches
  the end of the data.
\<close>

fun utf16be_decode :: "errors \<Rightarrow> byte list \<Rightarrow> exn + pystr" where
  "utf16be_decode m [] = Inr []"
| "utf16be_decode m [b] = on_error m (Inr [])"
| "utf16be_decode m (h # l # rest) =
     (if \<not> is_surrogate (unit16 h l) then emit (unit16 h l) (utf16be_decode m rest)
      else if \<not> is_high_surrogate (unit16 h l) then on_error m (utf16be_decode m rest)
      else case rest of
             h2 # l2 # rest2 \<Rightarrow>
               if is_low_surrogate (unit16 h2 l2)
               then emit (join_surrogates (unit16 h l) (unit16 h2 l2)) (utf16be_decode m rest2)
               else on_error m (utf16be_decode m rest)
           | _ \<Rightarrow> on_error m (Inr []))"

text \<open>\<open>b.decode('latin-1', errors=m)\<close>: every byte is a character, no error arises.\<close>

definition latin1_decode :: "errors \<Rightarrow> byte list \<Rightarrow> exn + pystr" where
  "latin1_decode m bs = Inr (map unat bs)"

text \<open>\<open>b.decode('ascii', errors=m)\<close>: a byte above 127 is an error of one byte.\<close>

fun ascii_decode :: "errors \<Rightarrow> byte list \<Rightarrow> exn + pystr" where
  "ascii_decode m [] = Inr []"
| "ascii_decode m (b # bs) =
     (if unat b < 128 then emit (unat b) (ascii_decode m bs)
      else on_error m (ascii_decode m bs))"

section \<open>The world outside the program\<close>

text \<open>
  Constants of \<open>smpplib.consts\<close>, kept symbolic: the client states, the types of
  number and the message modes.
\<close>

datatype client_state =
    SMPP_CLIENT_STATE_CLOSED
  | SMPP_CLIENT_STATE_OPEN
  | SMPP_CLIENT_STATE_BOUND_TX
  | SMPP_CLIENT_STATE_BOUND_RX
  | SMPP_CLIENT_STATE_BOUND_TRX

datatype smpp_ton =
    SMPP_TON_UNK | SMPP_TON_INTL | SMPP_TON_NATNL | SMPP_TON_NWSPEC
  | SMPP_TON_SBSCR | SMPP_TON_ALNUM | SMPP_TON_ABBREV

datatype smpp_msgmode =
    SMPP_MSGMODE_DEFAULT | SMPP_MSGMODE_DATAGRAM | SMPP_MSGMODE_FORWARD
  | SMPP_MSGMODE_STOREFORWARD

text \<open>The keyword arguments of \<open>client.send_message\<close>.\<close>

record submit_args =
  source_addr_ton :: smpp_ton
  source_addr :: pystr
  dest_addr_ton :: smpp_ton
  destination_addr :: pystr
  short_message :: "byte list"
  data_coding :: int
  esm_class :: smpp_msgmode

text \<open>The three replies of the chat handler.\<close>

datatype reply =
    ReplySent pystr pystr
  | ReplySendFailed
  | ReplyFormatError

text \<open>
  The calls into smpplib and the telegram package. A client object is named by the
  number it got when it was constructed.
\<close>

datatype call =
    NewClient
  | Connect nat
  | BindTransceiver nat
  | SetMessageReceivedHandler nat
  | StartListenThread nat
  | MakeEnquireLink nat
  | SendPdu nat
  | Unbind nat
  | Disconnect nat
  | SendMessage nat submit_args
  | BotSendMessage pystr pystr
  | ReplyText reply

datatype level = Debug | Info | Warning | Error

datatype log_msg =
    LogConnected
  | LogConnectFailed exn
  | LogKeepAliveSent
  | LogReconnecting
  | LogKeepAliveFailed exn
  | LogNotBound
  | LogSmsSent pystr pystr
  | LogSmsFailed exn
  | LogSmsReceived pystr pystr pyval "byte list"
  | LogIncomingFailed exn pystr "byte list"
  | LogToTelegram pystr pystr

text \<open>
  What the program does to the outside, in order: a call with its outcome (\<open>None\<close>
  when it returned, \<open>Some e\<close> when it raised), a log record, \<open>time.sleep(n)\<close>, and
  \<open>asyncio.sleep(0.1)\<close>.
\<close>

datatype event =
    Call call "exn option"
  | Log level log_msg
  | TimeSleep nat
  | AsyncSleepTenth

text \<open>
  The libraries are not part of the program. Their behaviour is a parameter: whether a
  call raises, and which state a client object reports, may depend on everything that
  has happened so far.
\<close>

record env =
  outcome :: "event list \<Rightarrow> call \<Rightarrow> exn option"
  state_of :: "event list \<Rightarrow> nat \<Rightarrow> client_state"

text \<open>
  The module's globals \<open>client\<close> and \<open>message_queue\<close>, the number of client objects
  constructed so far, and the history.
\<close>

record world =
  client :: "nat option"
  constructed :: nat
  message_queue :: "(pystr \<times> pystr) list"
  trace :: "event list"

section \<open>Statements that may raise\<close>

type_synonym 'a prog = "world \<Rightarrow> (exn + 'a) \<times> world"

definition returnE :: "'a \<Rightarrow> 'a prog" where
  "returnE x w = (Inr x, w)"

definition raiseE :: "exn \<Rightarrow> 'a prog" where
  "raiseE e w = (Inl e, w)"

definition bindE :: "'a prog \<Rightarrow> ('a \<Rightarrow> 'b prog) \<Rightarrow> 'b prog" where
  "bindE m f w = (case m w of (Inl e, w') \<Rightarrow> (Inl e, w') | (Inr x, w') \<Rightarrow> f x w')"

definition liftE :: "exn + 'a \<Rightarrow> 'a prog" where
  "liftE r w = (r, w)"

text \<open>\<open>try: body  except C as e: handler e\<close>, where \<open>catches e\<close> says that e is a C.\<close>

definition try_except :: "'a prog \<Rightarrow> (exn \<Rightarrow> bool) \<Rightarrow> (exn \<Rightarrow> 'a prog) \<Rightarrow> 'a prog" where
  "try_except body catches handler w =
     (case body w of
        (Inl e, w') \<Rightarrow> if catches e then handler e w' else (Inl e, w')
      | (Inr x, w') \<Rightarrow> (Inr x, w'))"

text \<open>Every class of \<open>exn\<close> derives from \<open>Exception\<close>.\<close>

definition except_Exception :: "exn \<Rightarrow> bool" where
  "except_Exception e = True"

text \<open>\<open>UnicodeEncodeError\<close> and \<open>UnicodeDecodeError\<close> are subclasses of \<open>ValueError\<close>.\<close>

definition except_ValueError :: "exn \<Rightarrow> bool" where
  "except_ValueError e = (e = ValueError \<or> e = UnicodeEncodeError \<or> e = UnicodeDecodeError)"

definition except_queue_Empty :: "exn \<Rightarrow> bool" where
  "except_queue_Empty e = (e = QueueEmpty)"

definition emit_event :: "event \<Rightarrow> unit prog" where
  "emit_event ev w = (Inr (), w\<lparr>trace := trace w @ [ev]\<rparr>)"

definition logger :: "level \<Rightarrow> log_msg \<Rightarrow> unit prog" where
  "logger lv msg = emit_event (Log lv msg)"

definition time_sleep :: "nat \<Rightarrow> unit prog" where
  "time_sleep n = emit_event (TimeSleep n)"

definition lib_call :: "env \<Rightarrow> call \<Rightarrow> unit prog" where
  "lib_call en c w =
     (case outcome en (trace w) c of
        None \<Rightarrow> (Inr (), w\<lparr>trace := trace w @ [Call c None]\<rparr>)
      | Some e \<Rightarrow> (Inl e, w\<lparr>trace := trace w @ [Call c (Some e)]\<rparr>))"

text \<open>\<open>smpplib.client.Client(SMPP_SERVER, SMPP_PORT, timeout=30)\<close>: a fresh object.\<close>

definition new_client :: "env \<Rightarrow> nat prog" where
  "new_client en =
     bindE (lib_call en NewClient)
       (\<lambda>_ w. (Inr (constructed w), w\<lparr>constructed := Suc (constructed w)\<rparr>))"

definition set_client :: "nat option \<Rightarrow> unit prog" where
  "set_client c w = (Inr (), w\<lparr>client := c\<rparr>)"

text \<open>A method call on the global \<open>client\<close>: on \<open>None\<close> it is an AttributeError.\<close>

definition the_client :: "nat prog" where
  "the_client w = (case client w of None \<Rightarrow> (Inl AttributeError, w) | Some c \<Rightarrow> (Inr c, w))"

section \<open>The program\<close>

definition SMPP_PHONE_NUMBER :: pystr where
  "SMPP_PHONE_NUMBER =
     [0x7F51, 0x5173, 0x4E0A, 0x53D1, 0x9001, 0x77ED, 0x4FE1, 0x7684, 0x624B, 0x673A,
      0x53F7, 0x7801]"

text \<open>
  \<open>connect_smpp\<close>: the new object is stored in the global before it connects, so a
  failed attempt leaves the global on the new, unbound object; the handler logs and
  raises again.
\<close>

definition connect_smpp :: "env \<Rightarrow> nat prog" where
  "connect_smpp en =
     try_except
       (bindE (new_client en) (\<lambda>c.
        bindE (set_client (Some c)) (\<lambda>_.
        bindE (lib_call en (Connect c)) (\<lambda>_.
        bindE (lib_call en (BindTransceiver c)) (\<lambda>_.
        bindE (lib_call en (SetMessageReceivedHandler c)) (\<lambda>_.
        bindE (lib_call en (StartListenThread c)) (\<lambda>_.
        bindE (logger Info LogConnected) (\<lambda>_.
        returnE c))))))))
       except_Exception
       (\<lambda>e. bindE (logger Error (LogConnectFailed e)) (\<lambda>_. raiseE e))"

text \<open>\<open>not client or client.state not in [SMPP_CLIENT_STATE_BOUND_TRX]\<close>\<close>

definition not_bound :: "env \<Rightarrow> world \<Rightarrow> bool" where
  "not_bound en w =
     (case client w of
        None \<Rightarrow> True
      | Some c \<Rightarrow> state_of en (trace w) c \<noteq> SMPP_CLIENT_STATE_BOUND_TRX)"

definition submit_of :: "pystr \<Rightarrow> byte list \<Rightarrow> submit_args" where
  "submit_of phone_number message_bytes =
     \<lparr> source_addr_ton = SMPP_TON_INTL,
       source_addr = SMPP_PHONE_NUMBER,
       dest_addr_ton = SMPP_TON_INTL,
       destination_addr = phone_number,
       short_message = message_bytes,
       data_coding = 8,
       esm_class = SMPP_MSGMODE_DEFAULT \<rparr>"

definition send_sms :: "env \<Rightarrow> pystr \<Rightarrow> pystr \<Rightarrow> bool prog" where
  "send_sms en phone_number message =
     try_except
       (bindE (\<lambda>w. if not_bound en w
                   then bindE (logger Warning LogNotBound) (\<lambda>_.
                        bindE (connect_smpp en) (\<lambda>c. set_client (Some c))) w
                   else returnE () w) (\<lambda>_.
        bindE (liftE (utf16be_encode message)) (\<lambda>message_bytes.
        bindE the_client (\<lambda>c.
        bindE (lib_call en (SendMessage c (submit_of phone_number message_bytes))) (\<lambda>_.
        bindE (logger Info (LogSmsSent phone_number message)) (\<lambda>_.
        returnE True))))))
       except_Exception
       (\<lambda>e. bindE (logger Error (LogSmsFailed e)) (\<lambda>_. returnE False))"

text \<open>
  \<open>smpp_keep_alive\<close>. The test of the loop body:
  \<open>client and client.state in [SMPP_CLIENT_STATE_OPEN, SMPP_CLIENT_STATE_BOUND_TRX]\<close>.
\<close>

definition probing :: "env \<Rightarrow> world \<Rightarrow> bool" where
  "probing en w =
     (case client w of
        None \<Rightarrow> False
      | Some c \<Rightarrow> state_of en (trace w) c = SMPP_CLIENT_STATE_OPEN
                 \<or> state_of en (trace w) c = SMPP_CLIENT_STATE_BOUND_TRX)"

text \<open>\<open>if client: client.unbind(); client.disconnect()\<close>\<close>

definition teardown :: "env \<Rightarrow> unit prog" where
  "teardown en w =
     (case client w of
        None \<Rightarrow> returnE () w
      | Some c \<Rightarrow> bindE (lib_call en (Unbind c)) (\<lambda>_. lib_call en (Disconnect c)) w)"

definition keep_alive_body :: "env \<Rightarrow> unit prog" where
  "keep_alive_body en w =
     (if probing en w
      then bindE the_client (\<lambda>c.
           bindE (lib_call en (MakeEnquireLink c)) (\<lambda>_.
           bindE (lib_call en (SendPdu c)) (\<lambda>_.
           logger Debug LogKeepAliveSent))) w
      else bindE (logger Warning LogReconnecting) (\<lambda>_.
           bindE (teardown en) (\<lambda>_.
           bindE (connect_smpp en) (\<lambda>c. set_client (Some c)))) w)"

text \<open>One pass of the \<open>while True\<close> loop: the guarded body, then \<open>time.sleep(30)\<close>.\<close>

definition keep_alive_iteration :: "env \<Rightarrow> unit prog" where
  "keep_alive_iteration en =
     bindE (try_except (keep_alive_body en) except_Exception
              (\<lambda>e. bindE (logger Error (LogKeepAliveFailed e)) (\<lambda>_. time_sleep 5)))
       (\<lambda>_. time_sleep 30)"

text \<open>
  The loop has no exit: it can only be left by an exception. \<open>smpp_keep_alive en n\<close>
  runs its first n passes; \<open>Inr ()\<close> says that all n were completed and the loop is
  still running, \<open>Inl e\<close> that e left the loop.
\<close>

fun smpp_keep_alive :: "env \<Rightarrow> nat \<Rightarrow> unit prog" where
  "smpp_keep_alive en 0 = returnE ()"
| "smpp_keep_alive en (Suc n) =
     bindE (keep_alive_iteration en) (\<lambda>_. smpp_keep_alive en n)"

text \<open>
  \<open>s.split(sep, maxsplit)\<close> for a separator of one character: cut at each of the
  first maxsplit occurrences, from the left.
\<close>

fun py_split :: "nat \<Rightarrow> nat \<Rightarrow> pystr \<Rightarrow> pystr list" where
  "py_split sep 0 s = [s]"
| "py_split sep (Suc k) s =
     (if sep \<in> set s
      then takeWhile (\<lambda>c. c \<noteq> sep) s # py_split sep k (tl (dropWhile (\<lambda>c. c \<noteq> sep) s))
      else [s])"

text \<open>\<open>a, b = xs\<close>: a ValueError unless xs has two elements.\<close>

definition unpack2 :: "pystr list \<Rightarrow> exn + (pystr \<times> pystr)" where
  "unpack2 xs = (case xs of [a, b] \<Rightarrow> Inr (a, b) | _ \<Rightarrow> Inl ValueError)"

definition handle_message :: "env \<Rightarrow> pystr \<Rightarrow> unit prog" where
  "handle_message en user_message =
     try_except
       (bindE (liftE (unpack2 (py_split 0x20 (Suc 0) user_message))) (\<lambda>(phone_number, message).
        bindE (send_sms en phone_number message) (\<lambda>success.
        if success then lib_call en (ReplyText (ReplySent message phone_number))
        else lib_call en (ReplyText ReplySendFailed))))
       except_ValueError
       (\<lambda>e. lib_call en (ReplyText ReplyFormatError))"

text \<open>\<open>handle_incoming_sms\<close>: attribute access, the methods of \<open>bytes\<close>.\<close>

definition getattr :: "pdu \<Rightarrow> string \<Rightarrow> exn + pyval" where
  "getattr p a = (case p a of None \<Rightarrow> Inl AttributeError | Some v \<Rightarrow> Inr v)"

definition getattr_default :: "pdu \<Rightarrow> string \<Rightarrow> pyval \<Rightarrow> pyval" where
  "getattr_default p a d = (case p a of None \<Rightarrow> d | Some v \<Rightarrow> v)"

definition decode_method ::
  "pyval \<Rightarrow> (errors \<Rightarrow> byte list \<Rightarrow> exn + pystr) \<Rightarrow> errors \<Rightarrow> exn + pystr" where
  "decode_method v codec m = (case v of PyBytes b \<Rightarrow> codec m b | _ \<Rightarrow> Inl AttributeError)"

definition hex_method :: "pyval \<Rightarrow> exn + byte list" where
  "hex_method v = (case v of PyBytes b \<Rightarrow> Inr b | _ \<Rightarrow> Inl AttributeError)"

text \<open>The choice of the decoder by \<open>data_coding\<close> (the if/elif/else of the callback).\<close>

definition decode_payload :: "pyval \<Rightarrow> pyval \<Rightarrow> exn + pystr" where
  "decode_payload dc raw_message =
     (if dc = PyInt 0 then decode_method raw_message latin1_decode Ignore
      else if dc = PyInt 8 then decode_method raw_message utf16be_decode Ignore
      else decode_method raw_message latin1_decode Ignore)"

text \<open>
  The local variables that the handler of the callback reads: unbound until the body has
  assigned them.
\<close>

record locals =
  phone_number_var :: "pystr option"
  raw_message_var :: "pyval option"

definition incoming_body :: "pdu \<Rightarrow> world \<Rightarrow> (exn + unit) \<times> locals \<times> world" where
  "incoming_body p w =
     (let ls0 = \<lparr>phone_number_var = None, raw_message_var = None\<rparr> in
      case getattr p ''command'' of
        Inl e \<Rightarrow> (Inl e, ls0, w)
      | Inr cmd \<Rightarrow>
          if cmd \<noteq> PyStr (of_ascii ''deliver_sm'') then (Inr (), ls0, w)
          else case getattr p ''source_addr'' of
            Inl e \<Rightarrow> (Inl e, ls0, w)
          | Inr sa \<Rightarrow>
              case decode_method sa ascii_decode Ignore of
                Inl e \<Rightarrow> (Inl e, ls0, w)
              | Inr phone_number \<Rightarrow>
                  let ls1 = ls0\<lparr>phone_number_var := Some phone_number\<rparr> in
                  case getattr p ''short_message'' of
                    Inl e \<Rightarrow> (Inl e, ls1, w)
                  | Inr raw_message \<Rightarrow>
                      let ls2 = ls1\<lparr>raw_message_var := Some raw_message\<rparr>;
                          dc = getattr_default p ''data_coding'' (PyInt 0) in
                      case decode_payload dc raw_message of
                        Inl e \<Rightarrow> (Inl e, ls2, w)
                      | Inr message_content \<Rightarrow>
                          case hex_method raw_message of
                            Inl e \<Rightarrow> (Inl e, ls2, w)
                          | Inr h \<Rightarrow>
                              (Inr (), ls2,
                               w\<lparr>trace := trace w @
                                    [Log Info (LogSmsReceived phone_number message_content dc h)],
                                 message_queue := message_queue w @
                                    [(phone_number, message_content)]\<rparr>))"

text \<open>
  The handler formats \<open>phone_number\<close> and \<open>raw_message.hex()\<close> into its log
  record, in this order.
\<close>

definition incoming_handler :: "exn \<Rightarrow> locals \<Rightarrow> unit prog" where
  "incoming_handler e ls w =
     (case phone_number_var ls of
        None \<Rightarrow> (Inl UnboundLocalError, w)
      | Some phone_number \<Rightarrow>
          case raw_message_var ls of
            None \<Rightarrow> (Inl UnboundLocalError, w)
          | Some raw_message \<Rightarrow>
              case hex_method raw_message of
                Inl e' \<Rightarrow> (Inl e', w)
              | Inr h \<Rightarrow> logger Error (LogIncomingFailed e phone_number h) w)"

definition handle_incoming_sms :: "pdu \<Rightarrow> unit prog" where
  "handle_incoming_sms p w =
     (case incoming_body p w of
        (Inl e, ls, w') \<Rightarrow> if except_Exception e then incoming_handler e ls w' else (Inl e, w')
      | (Inr u, ls, w') \<Rightarrow> (Inr u, w'))"

text \<open>
  \<open>process_incoming_messages\<close>. \<open>message_queue.get(timeout=1)\<close> takes the oldest
  entry or raises \<open>queue.Empty\<close>; \<open>bot.send_message\<close> gets the chat id of the
  configuration and the text made of the two parts. \<open>task_done\<close> only counts, and
  nothing in the program waits for the count.
\<close>

definition queue_get :: "(pystr \<times> pystr) prog" where
  "queue_get w =
     (case message_queue w of
        [] \<Rightarrow> (Inl QueueEmpty, w)
      | m # ms \<Rightarrow> (Inr m, w\<lparr>message_queue := ms\<rparr>))"

definition consumer_iteration :: "env \<Rightarrow> unit prog" where
  "consumer_iteration en =
     try_except
       (bindE queue_get (\<lambda>(phone_number, message_content).
        bindE (logger Debug (LogToTelegram phone_number message_content)) (\<lambda>_.
        lib_call en (BotSendMessage phone_number message_content))))
       except_queue_Empty
       (\<lambda>e. emit_event AsyncSleepTenth)"

text \<open>The first n passes of its \<open>while True\<close> loop, as for \<open>smpp_keep_alive\<close>.\<close>

fun process_incoming_messages :: "env \<Rightarrow> nat \<Rightarrow> unit prog" where
  "process_incoming_messages en 0 = returnE ()"
| "process_incoming_messages en (Suc n) =
     bindE (consumer_iteration en) (\<lambda>_. process_incoming_messages en n)"

text \<open>
  The listener thread and the consumer task side by side: a schedule is the order in
  which the callback runs on a received frame and the consumer makes a pass. The flag
  says whether the consumer task is still running; an exception that leaves its loop
  ends it.
\<close>

datatype action = Deliver pdu | Consume

fun run_schedule :: "env \<Rightarrow> action list \<Rightarrow> bool \<times> world \<Rightarrow> bool \<times> world" where
  "run_schedule en [] s = s"
| "run_schedule en (Deliver p # as) (alive, w) =
     run_schedule en as (alive, snd (handle_incoming_sms p w))"
| "run_schedule en (Consume # as) (alive, w) =
     (if alive
      then case consumer_iteration en w of
             (Inl e, w') \<Rightarrow> run_schedule en as (False, w')
           | (Inr u, w') \<Rightarrow> run_schedule en as (True, w')
      else run_schedule en as (alive, w))"

section \<open>Observations on the history\<close>

definition new_events :: "world \<Rightarrow> world \<Rightarrow> event list" where
  "new_events w w' = drop (length (trace w)) (trace w')"

text \<open>The calls of a history, in order, without their outcomes.\<close>

fun calls :: "event list \<Rightarrow> call list" where
  "calls [] = []"
| "calls (Call c r # evs) = c # calls evs"
| "calls (ev # evs) = calls evs"

fun is_send :: "call \<Rightarrow> bool" where
  "is_send (SendMessage c a) = True"
| "is_send x = False"

fun is_reconnect_call :: "call \<Rightarrow> bool" where
  "is_reconnect_call NewClient = True"
| "is_reconnect_call (Connect c) = True"
| "is_reconnect_call (BindTransceiver c) = True"
| "is_reconnect_call (Unbind c) = True"
| "is_reconnect_call (Disconnect c) = True"
| "is_reconnect_call x = False"

text \<open>The calls of the liveness probe: building the \<open>enquire_link\<close> PDU and sending it.\<close>

fun is_probe_call :: "call \<Rightarrow> bool" where
  "is_probe_call (MakeEnquireLink c) = True"
| "is_probe_call (SendPdu c) = True"
| "is_probe_call x = False"

text \<open>The 16-bit units of a payload, in order; a single trailing byte is no unit.\<close>

fun code_units :: "byte list \<Rightarrow> nat list" where
  "code_units (h # l # rest) = unit16 h l # code_units rest"
| "code_units bs = []"

text \<open>Every run of \<open>connect_smpp\<close> starts by constructing a client object.\<close>

definition connect_attempts :: "event list \<Rightarrow> nat" where
  "connect_attempts evs = length (filter (\<lambda>c. c = NewClient) (calls evs))"

definition sends :: "event list \<Rightarrow> call list" where
  "sends evs = filter is_send (calls evs)"

text \<open>The messages handed to \<open>bot.send_message\<close>, in order.\<close>

fun forwarded :: "event list \<Rightarrow> (pystr \<times> pystr) list" where
  "forwarded [] = []"
| "forwarded (Call (BotSendMessage a b) r # evs) = (a, b) # forwarded evs"
| "forwarded (ev # evs) = forwarded evs"

text \<open>The exceptions raised by the calls of a history.\<close>

definition failures :: "event list \<Rightarrow> exn list" where
  "failures evs = concat (map (\<lambda>ev. case ev of Call c (Some e) \<Rightarrow> [e] | _ \<Rightarrow> []) evs)"

text \<open>
  What \<open>send_sms\<close> does once \<open>client\<close> is settled and the text is encoded: the
  call of \<open>send_message\<close> and the log record of either outcome.
\<close>

definition submit :: "env \<Rightarrow> pystr \<Rightarrow> pystr \<Rightarrow> byte list \<Rightarrow> nat \<Rightarrow> bool prog" where
  "submit en p m bs c w =
     (case outcome en (trace w) (SendMessage c (submit_of p bs)) of
        None \<Rightarrow>
          (Inr True, w\<lparr>trace := trace w @ [Call (SendMessage c (submit_of p bs)) None,
                                             Log Info (LogSmsSent p m)]\<rparr>)
      | Some e \<Rightarrow>
          (Inr False, w\<lparr>trace := trace w @ [Call (SendMessage c (submit_of p bs)) (Some e),
                                              Log Error (LogSmsFailed e)]\<rparr>))"

section \<open>Example environments\<close>

text \<open>A gateway that answers every call and reports the session bound.\<close>

definition env_up :: env where
  "env_up = \<lparr>outcome = (\<lambda>tr c. None), state_of = (\<lambda>tr c. SMPP_CLIENT_STATE_BOUND_TRX)\<rparr>"

text \<open>A gateway that cannot be reached: \<open>connect\<close> raises, the state is closed.\<close>

definition env_down :: env where
  "env_down =
     \<lparr>outcome = (\<lambda>tr c. case c of Connect h \<Rightarrow> Some (LibraryError ''ConnectionError'')
                                | _ \<Rightarrow> None),
      state_of = (\<lambda>tr c. SMPP_CLIENT_STATE_CLOSED)\<rparr>"

definition world_start :: world where
  "world_start = \<lparr>client = None, constructed = 0, message_queue = [], trace = []\<rparr>"

definition world_running :: world where
  "world_running = \<lparr>client = Some 0, constructed = 1, message_queue = [], trace = []\<rparr>"

text \<open>
  What the callback puts on the queue for a frame: its effect on an empty queue.
\<close>

definition enqueued :: "pdu \<Rightarrow> (pystr \<times> pystr) list" where
  "enqueued p = message_queue (snd (handle_incoming_sms p world_start))"

fun delivered :: "action \<Rightarrow> (pystr \<times> pystr) list" where
  "delivered (Deliver p) = enqueued p"
| "delivered Consume = []"

section \<open>Example frames\<close>

text \<open>A delivery frame with a sender and a payload, and no \<open>data_coding\<close> attribute.\<close>

definition deliver_sm_frame :: "byte list \<Rightarrow> byte list \<Rightarrow> pdu" where
  "deliver_sm_frame sa raw =
     [''command'' \<mapsto> PyStr (of_ascii ''deliver_sm''),
      ''source_addr'' \<mapsto> PyBytes sa,
      ''short_message'' \<mapsto> PyBytes raw]"

text \<open>
  A delivery frame of an empty message: the payload attribute is \<open>None\<close>, as smpplib
  leaves every field that the received bytes do not reach.
\<close>

definition empty_sms_frame :: pdu where
  "empty_sms_frame =
     [''command'' \<mapsto> PyStr (of_ascii ''deliver_sm''),
      ''source_addr'' \<mapsto> PyBytes [0x31, 0x32, 0x33],
      ''short_message'' \<mapsto> PyNone,
      ''data_coding'' \<mapsto> PyInt 0]"

text \<open>A delivery frame whose \<open>data_coding\<close> attribute is 8.\<close>

definition ucs2_frame :: "byte list \<Rightarrow> byte list \<Rightarrow> pdu" where
  "ucs2_frame sa raw =
     [''command'' \<mapsto> PyStr (of_ascii ''deliver_sm''),
      ''source_addr'' \<mapsto> PyBytes sa,
      ''short_message'' \<mapsto> PyBytes raw,
      ''data_coding'' \<mapsto> PyInt 8]"


text \<open>A chat platform that cannot be reached: \<open>bot.send_message\<close> raises.\<close>

definition env_bot_fails :: env where
  "env_bot_fails =
     \<lparr>outcome = (\<lambda>tr c. case c of BotSendMessage a b \<Rightarrow> Some (LibraryError ''NetworkError'')
                                | _ \<Rightarrow> None),
      state_of = (\<lambda>tr c. SMPP_CLIENT_STATE_BOUND_TRX)\<rparr>"

text \<open>
  A session that keeps reporting the bound state while every probe send fails (a failed
  send leaves the state of the client object as it was).
\<close>

definition env_probe_fails :: env where
  "env_probe_fails =
     \<lparr>outcome = (\<lambda>tr c. case c of SendPdu h \<Rightarrow> Some (LibraryError ''ConnectionError'')
                                | _ \<Rightarrow> None),
      state_of = (\<lambda>tr c. SMPP_CLIENT_STATE_BOUND_TRX)\<rparr>"

text \<open>
  A client that reports the closed state. In \<open>env_closed\<close> every call returns; in
  \<open>env_stale\<close> \<open>unbind\<close> raises, as smpplib does for a command that the state of
  the client does not allow.
\<close>

definition env_closed :: env where
  "env_closed = \<lparr>outcome = (\<lambda>tr c. None), state_of = (\<lambda>tr c. SMPP_CLIENT_STATE_CLOSED)\<rparr>"

definition env_stale :: env where
  "env_stale =
     \<lparr>outcome = (\<lambda>tr c. case c of Unbind h \<Rightarrow> Some (LibraryError ''PDUError'')
                                | _ \<Rightarrow> None),
      state_of = (\<lambda>tr c. SMPP_CLIENT_STATE_CLOSED)\<rparr>"

text \<open>The passes of the keep-alive loop that a history has completed.\<close>

definition ticks :: "event list \<Rightarrow> nat" where
  "ticks evs = length (filter (\<lambda>ev. ev = TimeSleep 30) evs)"

section \<open>Basic facts\<close>

lemmas prog_defs = returnE_def raiseE_def bindE_def liftE_def try_except_def except_Exception_def
  emit_event_def logger_def time_sleep_def lib_call_def new_client_def set_client_def the_client_def

lemma calls_append [simp]: "calls (xs @ ys) = calls xs @ calls ys"
  by (induction xs rule: calls.induct) simp_all

lemma connect_attempts_append [simp]:
  "connect_attempts (xs @ ys) = connect_attempts xs + connect_attempts ys"
  by (simp add: connect_attempts_def)

lemma sends_append [simp]: "sends (xs @ ys) = sends xs @ sends ys"
  by (simp add: sends_def)

lemma failures_append [simp]: "failures (xs @ ys) = failures xs @ failures ys"
  by (simp add: failures_def)

lemma observations_Log [simp]:
  "connect_attempts (Log l m # evs) = connect_attempts evs"
  "sends (Log l m # evs) = sends evs"
  "failures (Log l m # evs) = failures evs"
  "connect_attempts [] = 0" "sends [] = []" "failures [] = []"
  by (simp_all add: connect_attempts_def sends_def failures_def)

lemma new_events_append [simp]: "trace w' = trace w @ evs \<Longrightarrow> new_events w w' = evs"
  by (simp add: new_events_def)

section \<open>Connecting and sending\<close>

lemma connect_smpp_result:
  "\<exists>r w' evs. connect_smpp en w = (r, w') \<and> message_queue w' = message_queue w \<and>
     trace w' = trace w @ evs \<and> connect_attempts evs = 1 \<and> sends evs = [] \<and>
     take 1 (calls evs) = [NewClient] \<and>
     ((\<exists>c. r = Inr c) \<longleftrightarrow> failures evs = []) \<and>
     ((\<exists>c. r = Inr c) \<longleftrightarrow> Log Info LogConnected \<in> set evs) \<and>
     (\<forall>c. r = Inr c \<longrightarrow> client w' = Some c \<and> c = constructed w)"
  unfolding connect_smpp_def prog_defs
  by (auto simp: connect_attempts_def sends_def failures_def split: option.splits sum.splits)

lemma submit_result:
  "\<exists>b w' evs. submit en p m bs c w = (Inr b, w') \<and> trace w' = trace w @ evs \<and>
     connect_attempts evs = 0 \<and> sends evs = [SendMessage c (submit_of p bs)] \<and>
     (b \<longleftrightarrow> failures evs = []) \<and> Log Info LogConnected \<notin> set evs"
  unfolding submit_def
  by (auto simp: connect_attempts_def sends_def failures_def split: option.splits)

lemma send_sms_bound:
  assumes "\<not> not_bound en w" "utf16be_encode m = Inr bs" "client w = Some c"
  shows "send_sms en p m w = submit en p m bs c w"
  using assms unfolding send_sms_def prog_defs submit_def
  by (simp split: option.splits)

lemma send_sms_not_bound:
  assumes "not_bound en w" "utf16be_encode m = Inr bs"
  shows "send_sms en p m w =
     (case connect_smpp en (w\<lparr>trace := trace w @ [Log Warning LogNotBound]\<rparr>) of
        (Inl e, w1) \<Rightarrow> (Inr False, w1\<lparr>trace := trace w1 @ [Log Error (LogSmsFailed e)]\<rparr>)
      | (Inr c, w1) \<Rightarrow> submit en p m bs c (w1\<lparr>client := Some c\<rparr>))"
  using assms unfolding send_sms_def prog_defs submit_def
  by (simp split: option.splits sum.splits prod.splits)

lemma encode_Hi: "utf16be_encode [0x48, 0x69] = Inr [0, 0x48, 0, 0x69]"
  by (simp add: is_surrogate_def encode_code_point_def be16_def)

text \<open>
  Claim C1, as it stands: for a text that can be encoded, \<open>send_sms\<close> calls
  \<open>send_message\<close> exactly once when the session is bound, and makes one reconnect
  attempt followed by that one send when it is not. It fails where the reconnect attempt
  fails: with no client and a gateway that refuses the connection there is one attempt,
  no send at all, and the result is \<open>False\<close>.
\<close>

theorem send_sms_reconnect_failure:
  "not_bound env_down world_start \<and>
   utf16be_encode [0x48, 0x69] = Inr [0, 0x48, 0, 0x69] \<and>
   send_sms env_down [0x31, 0x32, 0x33] [0x48, 0x69] world_start =
     (Inr False,
      \<lparr>client = Some 0, constructed = 1, message_queue = [],
       trace = [Log Warning LogNotBound, Call NewClient None,
                Call (Connect 0) (Some (LibraryError ''ConnectionError'')),
                Log Error (LogConnectFailed (LibraryError ''ConnectionError'')),
                Log Error (LogSmsFailed (LibraryError ''ConnectionError''))]\<rparr>) \<and>
   sends (trace (snd (send_sms env_down [0x31, 0x32, 0x33] [0x48, 0x69] world_start))) = []"
proof -
  have nb: "not_bound env_down world_start"
    by (simp add: not_bound_def world_start_def)
  have c: "connect_smpp env_down
             (world_start\<lparr>trace := trace world_start @ [Log Warning LogNotBound]\<rparr>) =
     (Inl (LibraryError ''ConnectionError''),
      \<lparr>client = Some 0, constructed = 1, message_queue = [],
       trace = [Log Warning LogNotBound, Call NewClient None,
                Call (Connect 0) (Some (LibraryError ''ConnectionError'')),
                Log Error (LogConnectFailed (LibraryError ''ConnectionError''))]\<rparr>)"
    unfolding connect_smpp_def prog_defs by (simp add: env_down_def world_start_def)
  have s: "send_sms env_down [0x31, 0x32, 0x33] [0x48, 0x69] world_start =
     (Inr False,
      \<lparr>client = Some 0, constructed = 1, message_queue = [],
       trace = [Log Warning LogNotBound, Call NewClient None,
                Call (Connect 0) (Some (LibraryError ''ConnectionError'')),
                Log Error (LogConnectFailed (LibraryError ''ConnectionError'')),
                Log Error (LogSmsFailed (LibraryError ''ConnectionError''))]\<rparr>)"
    using send_sms_not_bound [OF nb encode_Hi, of "[0x31, 0x32, 0x33]"] c by simp
  show ?thesis using nb encode_Hi s by (simp add: sends_def)
qed

text \<open>
  Claim C1, amended: for a text that can be encoded, \<open>send_sms\<close> returns a boolean and
  never raises; the boolean is \<open>True\<close> exactly when no call raised. With the session
  bound it makes no reconnect attempt and calls \<open>send_message\<close> exactly once. With the
  session absent or not bound it makes exactly one reconnect attempt, before anything
  else; if that attempt succeeds exactly one \<open>send_message\<close> follows it, on the new
  client, and if it fails no send is made.
\<close>

theorem send_sms_dispatch:
  assumes enc: "utf16be_encode message = Inr bs"
  shows "\<exists>b w'. send_sms en phone_number message w = (Inr b, w') \<and>
    (b \<longleftrightarrow> failures (new_events w w') = []) \<and>
    (if not_bound en w
     then connect_attempts (new_events w w') = 1 \<and>
          take 1 (calls (new_events w w')) = [NewClient] \<and>
          sends (new_events w w') =
            (if Log Info LogConnected \<in> set (new_events w w')
             then [SendMessage (constructed w) (submit_of phone_number bs)] else [])
     else connect_attempts (new_events w w') = 0 \<and>
          (\<exists>c. client w = Some c \<and>
               sends (new_events w w') = [SendMessage c (submit_of phone_number bs)]))"
proof (cases "not_bound en w")
  case False
  then obtain c where c: "client w = Some c"
    by (auto simp: not_bound_def split: option.splits)
  obtain b w' evs where r: "submit en phone_number message bs c w = (Inr b, w')"
      "trace w' = trace w @ evs" "connect_attempts evs = 0"
      "sends evs = [SendMessage c (submit_of phone_number bs)]" "b \<longleftrightarrow> failures evs = []"
    using submit_result by blast
  show ?thesis
    using False c r send_sms_bound [OF False enc c] by simp
next
  case True
  let ?w0 = "w\<lparr>trace := trace w @ [Log Warning LogNotBound]\<rparr>"
  obtain r w1 evs where k: "connect_smpp en ?w0 = (r, w1)" "trace w1 = trace ?w0 @ evs"
      "connect_attempts evs = 1" "sends evs = []" "take 1 (calls evs) = [NewClient]"
      "(\<exists>c. r = Inr c) \<longleftrightarrow> failures evs = []"
      "(\<exists>c. r = Inr c) \<longleftrightarrow> Log Info LogConnected \<in> set evs"
      "\<forall>c. r = Inr c \<longrightarrow> client w1 = Some c \<and> c = constructed ?w0"
    using connect_smpp_result [of en ?w0] by blast
  have ne: "Suc 0 \<le> length (calls evs)" using k(5) by (cases "calls evs") auto
  show ?thesis
  proof (cases r)
    case (Inl e)
    have "send_sms en phone_number message w =
        (Inr False, w1\<lparr>trace := trace w1 @ [Log Error (LogSmsFailed e)]\<rparr>)"
      using send_sms_not_bound [OF True enc, of phone_number] k(1) Inl by simp
    moreover have "new_events w (w1\<lparr>trace := trace w1 @ [Log Error (LogSmsFailed e)]\<rparr>)
        = Log Warning LogNotBound # evs @ [Log Error (LogSmsFailed e)]"
      using k(2) by (simp add: new_events_def)
    ultimately show ?thesis
      using True k Inl ne by auto
  next
    case (Inr c)
    let ?w2 = "w1\<lparr>client := Some c\<rparr>"
    obtain b w' evs2 where s: "submit en phone_number message bs c ?w2 = (Inr b, w')"
        "trace w' = trace ?w2 @ evs2" "connect_attempts evs2 = 0"
        "sends evs2 = [SendMessage c (submit_of phone_number bs)]" "b \<longleftrightarrow> failures evs2 = []"
        "Log Info LogConnected \<notin> set evs2"
      using submit_result by blast
    have "send_sms en phone_number message w = (Inr b, w')"
      using send_sms_not_bound [OF True enc, of phone_number] k(1) Inr s(1) by simp
    moreover have "new_events w w' = Log Warning LogNotBound # evs @ evs2"
      using k(2) s(2) by (simp add: new_events_def)
    ultimately show ?thesis
      using True k Inr s ne by auto
  qed
qed

theorem send_sms_dispatch_witness:
  "utf16be_encode [0x48, 0x69] = Inr [0, 0x48, 0, 0x69] \<and>
   \<not> not_bound env_up world_running \<and>
   (\<exists>b w'. send_sms env_up [0x31, 0x32, 0x33] [0x48, 0x69] world_running = (Inr b, w') \<and>
      connect_attempts (new_events world_running w') = 0 \<and>
      sends (new_events world_running w') =
        [SendMessage 0 (submit_of [0x31, 0x32, 0x33] [0, 0x48, 0, 0x69])])"
proof -
  have nb: "\<not> not_bound env_up world_running"
    by (simp add: not_bound_def world_running_def env_up_def)
  have c: "client world_running = Some 0" by (simp add: world_running_def)
  show ?thesis
    using send_sms_dispatch [OF encode_Hi, of env_up "[0x31, 0x32, 0x33]" world_running]
      nb c encode_Hi
    by auto
qed

section \<open>The codecs\<close>

lemma emit_Inr [simp]: "emit c (Inr s) = Inr (c # s)"
  by (simp add: emit_def)

lemma emit_Inl [simp]: "emit c (Inl e) = Inl e"
  by (simp add: emit_def)

lemma emit_eq_Inr: "emit c r = Inr s \<longleftrightarrow> (\<exists>t. r = Inr t \<and> s = c # t)"
  by (cases r) auto

lemma isl_emit [simp]: "isl (emit c r) = isl r"
  by (cases r) auto

lemma on_error_simps [simp]:
  "on_error Strict r = Inl UnicodeDecodeError"
  "on_error Ignore r = r"
  "on_error Replace r = emit 0xFFFD r"
  by (simp_all add: on_error_def)

lemma isl_on_error: "m \<noteq> Strict \<Longrightarrow> isl (on_error m r) = isl r"
  by (cases m) auto

lemma unit16_be16:
  assumes "u < 0x10000"
  shows "unit16 (of_nat (u div 256)) (of_nat (u mod 256)) = u"
proof -
  have "u div 256 < 256" using assms by simp
  then have "unat (of_nat (u div 256) :: byte) = u div 256"
    by (simp add: unat_of_nat)
  moreover have "unat (of_nat (u mod 256) :: byte) = u mod 256"
    by (simp add: unat_of_nat)
  ultimately show ?thesis by (simp add: unit16_def)
qed

text \<open>Decoding reads an encoded character back, whatever follows it.\<close>

lemma decode_encoded_code_point:
  assumes "\<not> is_surrogate c" "c < 0x110000"
  shows "utf16be_decode m (encode_code_point c @ rest) = emit c (utf16be_decode m rest)"
proof (cases "c < 0x10000")
  case True
  then show ?thesis
    using assms(1) by (simp add: encode_code_point_def be16_def unit16_be16)
next
  case False
  define v where "v = c - 0x10000"
  define hi where "hi = 0xD800 + v div 0x400"
  define lo where "lo = 0xDC00 + v mod 0x400"
  have v: "v < 0x100000" using assms(2) False by (simp add: v_def)
  have hi: "0xD800 \<le> hi" "hi \<le> 0xDBFF" using v by (simp_all add: hi_def)
  have lo: "0xDC00 \<le> lo" "lo \<le> 0xDFFF" by (simp_all add: lo_def)
  have uh: "unit16 (of_nat (hi div 256)) (of_nat (hi mod 256)) = hi"
    using hi by (intro unit16_be16) simp
  have ul: "unit16 (of_nat (lo div 256)) (of_nat (lo mod 256)) = lo"
    using lo by (intro unit16_be16) simp
  have j: "join_surrogates hi lo = c"
    using False by (simp add: join_surrogates_def hi_def lo_def v_def)
  have "encode_code_point c = be16 hi @ be16 lo"
    using False by (simp add: encode_code_point_def hi_def lo_def v_def)
  then show ?thesis
    using hi lo uh ul j
    by (simp add: be16_def is_surrogate_def is_high_surrogate_def is_low_surrogate_def)
qed

lemma utf16be_roundtrip:
  "utf16be_encode s = Inr bs \<Longrightarrow> \<forall>c\<in>set s. c < 0x110000 \<Longrightarrow> utf16be_decode m bs = Inr s"
proof (induction s arbitrary: bs)
  case Nil
  then show ?case by simp
next
  case (Cons c cs)
  then show ?case
    by (auto simp: decode_encoded_code_point split: if_splits sum.splits)
qed

text \<open>With \<open>ignore\<close> or \<open>replace\<close> the decoder returns a string for every input.\<close>

lemma utf16be_decode_total: "m \<noteq> Strict \<Longrightarrow> \<not> isl (utf16be_decode m bs)"
proof (induction m bs rule: utf16be_decode.induct)
  case (1 m)
  then show ?case by simp
next
  case (2 m b)
  then show ?case by (simp add: isl_on_error)
next
  case (3 m h l rest)
  then show ?case
    by (subst utf16be_decode.simps(3))
       (auto simp del: utf16be_decode.simps simp add: isl_on_error split: list.splits)
qed

text \<open>Where the strict decoder succeeds, the error handler is never called.\<close>

lemma utf16be_decode_strict_any:
  "utf16be_decode Strict bs = Inr s \<Longrightarrow> utf16be_decode m bs = Inr s"
proof (induction m bs arbitrary: s rule: utf16be_decode.induct)
  case (1 m)
  then show ?case by simp
next
  case (2 m b)
  then show ?case by simp
next
  case (3 m h l rest)
  show ?case
    using "3.prems" "3.IH"
    by (auto simp del: utf16be_decode.simps
          simp add: utf16be_decode.simps(3) [of m h l rest]
            utf16be_decode.simps(3) [of Strict h l rest] emit_eq_Inr
          split: if_splits list.splits)
qed

text \<open>
  What \<open>ignore\<close> returns is what \<open>replace\<close> returns with characters left out: the
  substitution characters of the undecodable ranges.
\<close>

lemma utf16be_ignore_subseq_replace:
  "m = Ignore \<Longrightarrow> utf16be_decode m bs = Inr s \<Longrightarrow> utf16be_decode Replace bs = Inr t
     \<Longrightarrow> subseq s t"
proof (induction m bs arbitrary: s t rule: utf16be_decode.induct)
  case (1 m)
  then show ?case by simp
next
  case (2 m b)
  then show ?case by simp
next
  case (3 m h l rest)
  show ?case
    using "3.prems" "3.IH"
    by (auto simp del: utf16be_decode.simps
          simp add: utf16be_decode.simps(3) [of Ignore h l rest]
            utf16be_decode.simps(3) [of Replace h l rest] emit_eq_Inr
          split: if_splits list.splits)
qed

lemma ascii_decode_ignore: "ascii_decode Ignore bs = Inr (map unat (filter (\<lambda>b. unat b < 128) bs))"
  by (induction bs) simp_all

lemma decode_Hi: "utf16be_decode Strict [0, 0x48, 0, 0x69] = Inr [0x48, 0x69]"
  by (simp add: unit16_def is_surrogate_def)

lemma surrogate_not_substitute:
  "is_surrogate u \<Longrightarrow> u \<noteq> 0xFFFD" "is_low_surrogate u \<Longrightarrow> u \<noteq> 0xFFFD"
  "join_surrogates a b \<noteq> 0xFFFD"
  by (simp_all add: is_surrogate_def is_low_surrogate_def join_surrogates_def)

lemma high_is_surrogate: "is_high_surrogate u \<Longrightarrow> is_surrogate u"
  by (simp add: is_high_surrogate_def is_surrogate_def)

text \<open>
  \<open>ignore\<close> against \<open>replace\<close> and \<open>strict\<close>, on every payload: both return a
  text; they agree on every character other than U+FFFD; the text of \<open>ignore\<close> is never
  the longer one and is the shorter one where the strict decoder raises; and it has
  U+FFFD exactly as often as the payload has the unit FFFD.
\<close>

lemma utf16be_ignore_replace:
  "\<exists>s t. utf16be_decode Ignore bs = Inr s \<and> utf16be_decode Replace bs = Inr t \<and>
      filter (\<lambda>c. c \<noteq> 0xFFFD) s = filter (\<lambda>c. c \<noteq> 0xFFFD) t \<and>
      length s \<le> length t \<and>
      (isl (utf16be_decode Strict bs) \<longrightarrow> length s < length t) \<and>
      count_list s 0xFFFD = count_list (code_units bs) 0xFFFD"
proof (induction bs rule: length_induct)
  case (1 bs)
  let ?P = "\<lambda>bs s t. utf16be_decode Ignore bs = Inr s \<and> utf16be_decode Replace bs = Inr t \<and>
      filter (\<lambda>c. c \<noteq> 0xFFFD) s = filter (\<lambda>c. c \<noteq> 0xFFFD) t \<and>
      length s \<le> length t \<and>
      (isl (utf16be_decode Strict bs) \<longrightarrow> length s < length t) \<and>
      count_list s 0xFFFD = count_list (code_units bs) 0xFFFD"
  have ih: "\<And>ys. length ys < length bs \<Longrightarrow> \<exists>s t. ?P ys s t"
    using 1 by blast
  show ?case
  proof (cases bs rule: code_units.cases)
    case "2_1"
    then show ?thesis by simp
  next
    case "2_2"
    then show ?thesis by simp
  next
    case (1 h l rest)
    obtain s t where r: "?P rest s t"
      using ih [of rest] 1 by auto
    show ?thesis
    proof (cases "is_surrogate (unit16 h l)")
      case False
      then show ?thesis
        using 1 r
        by (intro exI [of _ "unit16 h l # s"] exI [of _ "unit16 h l # t"])
           (simp del: utf16be_decode.simps add: utf16be_decode.simps(3) [of _ h l rest])
    next
      case True
      note sur = True
      show ?thesis
      proof (cases "is_high_surrogate (unit16 h l)")
        case False
        then show ?thesis
          using 1 r sur surrogate_not_substitute(1) [OF sur]
          by (intro exI [of _ s] exI [of _ "0xFFFD # t"])
             (simp del: utf16be_decode.simps add: utf16be_decode.simps(3) [of _ h l rest])
      next
        case True
        note high = True
        show ?thesis
        proof (cases rest rule: code_units.cases)
          case "2_1"
          then show ?thesis
            using 1 sur high surrogate_not_substitute(1) [OF sur]
            by (intro exI [of _ "[]"] exI [of _ "[0xFFFD]"]) simp
        next
          case "2_2"
          then show ?thesis
            using 1 sur high surrogate_not_substitute(1) [OF sur]
            by (intro exI [of _ "[]"] exI [of _ "[0xFFFD]"]) simp
        next
          case (1 h2 l2 rest2)
          note rest = 1
          show ?thesis
          proof (cases "is_low_surrogate (unit16 h2 l2)")
            case True
            obtain s2 t2 where r2: "?P rest2 s2 t2"
              using ih [of rest2] \<open>bs = h # l # rest\<close> rest by auto
            show ?thesis
              using \<open>bs = h # l # rest\<close> rest r2 sur high True
                surrogate_not_substitute(1) [OF sur] surrogate_not_substitute(2) [OF True]
                surrogate_not_substitute(3) [of "unit16 h l" "unit16 h2 l2"]
              by (intro exI [of _ "join_surrogates (unit16 h l) (unit16 h2 l2) # s2"]
                    exI [of _ "join_surrogates (unit16 h l) (unit16 h2 l2) # t2"])
                 (simp del: utf16be_decode.simps
                    add: utf16be_decode.simps(3) [of _ h l "h2 # l2 # rest2"])
          next
            case False
            have r': "?P (h2 # l2 # rest2) s t" using r rest by simp
            show ?thesis
              using \<open>bs = h # l # rest\<close> rest r' sur high False
                surrogate_not_substitute(1) [OF sur]
              by (intro exI [of _ s] exI [of _ "0xFFFD # t"])
                 (simp del: utf16be_decode.simps code_units.simps
                    add: utf16be_decode.simps(3) [of _ h l "h2 # l2 # rest2"]
                      code_units.simps(1) [of h l "h2 # l2 # rest2"])
          qed
        qed
      qed
    qed
  qed
qed

section \<open>The submitted message\<close>

lemma send_sms_bound_unencodable:
  assumes "\<not> not_bound en w" "utf16be_encode m = Inl e"
  shows "send_sms en p m w = (Inr False, w\<lparr>trace := trace w @ [Log Error (LogSmsFailed e)]\<rparr>)"
  using assms unfolding send_sms_def prog_defs
  by (simp split: option.splits)

lemma send_sms_not_bound_unencodable:
  assumes "not_bound en w" "utf16be_encode m = Inl e"
  shows "send_sms en p m w =
     (case connect_smpp en (w\<lparr>trace := trace w @ [Log Warning LogNotBound]\<rparr>) of
        (Inl e', w1) \<Rightarrow> (Inr False, w1\<lparr>trace := trace w1 @ [Log Error (LogSmsFailed e')]\<rparr>)
      | (Inr c, w1) \<Rightarrow>
          (Inr False, w1\<lparr>client := Some c, trace := trace w1 @ [Log Error (LogSmsFailed e)]\<rparr>))"
  using assms unfolding send_sms_def prog_defs
  by (simp split: option.splits sum.splits prod.splits)

lemma send_sms_unencodable_sends:
  assumes "utf16be_encode m = Inl e"
  shows "sends (new_events w (snd (send_sms en p m w))) = []"
proof (cases "not_bound en w")
  case False
  then show ?thesis
    using send_sms_bound_unencodable [OF False assms, of p] by (simp add: new_events_def)
next
  case True
  let ?w0 = "w\<lparr>trace := trace w @ [Log Warning LogNotBound]\<rparr>"
  obtain r w1 evs where k: "connect_smpp en ?w0 = (r, w1)" "trace w1 = trace ?w0 @ evs"
      "sends evs = []"
    using connect_smpp_result [of en ?w0] by blast
  show ?thesis
    using send_sms_not_bound_unencodable [OF True assms, of p] k
    by (cases r) (simp_all add: new_events_def)
qed

lemma send_sms_encodable_sends:
  assumes enc: "utf16be_encode m = Inr bs"
  shows "\<exists>c. set (sends (new_events w (snd (send_sms en p m w)))) \<subseteq> {SendMessage c (submit_of p bs)}"
proof (cases "not_bound en w")
  case False
  then obtain c where c: "client w = Some c"
    by (auto simp: not_bound_def split: option.splits)
  obtain b w' evs where r: "submit en p m bs c w = (Inr b, w')"
      "trace w' = trace w @ evs" "sends evs = [SendMessage c (submit_of p bs)]"
    using submit_result by blast
  show ?thesis
    using r send_sms_bound [OF False enc c, of p] by auto
next
  case True
  let ?w0 = "w\<lparr>trace := trace w @ [Log Warning LogNotBound]\<rparr>"
  obtain r w1 evs where k: "connect_smpp en ?w0 = (r, w1)" "trace w1 = trace ?w0 @ evs"
      "sends evs = []"
    using connect_smpp_result [of en ?w0] by blast
  show ?thesis
  proof (cases r)
    case (Inl e)
    then show ?thesis
      using send_sms_not_bound [OF True enc, of p] k by (simp add: new_events_def)
  next
    case (Inr c)
    obtain b w' evs2 where s: "submit en p m bs c (w1\<lparr>client := Some c\<rparr>) = (Inr b, w')"
        "trace w' = trace (w1\<lparr>client := Some c\<rparr>) @ evs2"
        "sends evs2 = [SendMessage c (submit_of p bs)]"
      using submit_result by blast
    have "new_events w w' = Log Warning LogNotBound # evs @ evs2"
      using k(2) s(2) by (simp add: new_events_def)
    then show ?thesis
      using send_sms_not_bound [OF True enc, of p] k Inr s by auto
  qed
qed

lemma in_sends: "Call c r \<in> set evs \<Longrightarrow> is_send c \<Longrightarrow> c \<in> set (sends evs)"
  unfolding sends_def by (induction evs rule: calls.induct) auto

text \<open>
  Claim C8: whenever \<open>send_sms\<close> calls \<open>send_message\<close>, the payload is the UTF-16-BE
  encoding of the message body (decoding it gives the body back), the data coding is
  8, both types of number are the international one, the destination is the requested
  number and the source is the configured one.
\<close>

theorem send_sms_payload:
  assumes "send_sms en phone_number message w = (r, w')"
      and "Call (SendMessage c a) out \<in> set (new_events w w')"
  shows "utf16be_encode message = Inr (short_message a) \<and> data_coding a = 8 \<and>
         source_addr_ton a = SMPP_TON_INTL \<and> dest_addr_ton a = SMPP_TON_INTL \<and>
         source_addr a = SMPP_PHONE_NUMBER \<and> destination_addr a = phone_number \<and>
         ((\<forall>c\<in>set message. c < 0x110000) \<longrightarrow>
            utf16be_decode Strict (short_message a) = Inr message)"
proof -
  have mem: "SendMessage c a \<in> set (sends (new_events w (snd (send_sms en phone_number message w))))"
    using assms in_sends [of "SendMessage c a" out "new_events w w'"] by simp
  show ?thesis
  proof (cases "utf16be_encode message")
    case (Inl e)
    then show ?thesis
      using mem send_sms_unencodable_sends [of message e w en phone_number] by simp
  next
    case (Inr bs)
    then obtain c' where
      "set (sends (new_events w (snd (send_sms en phone_number message w))))
         \<subseteq> {SendMessage c' (submit_of phone_number bs)}"
      using send_sms_encodable_sends by blast
    with mem have "a = submit_of phone_number bs" by auto
    then show ?thesis
      using Inr utf16be_roundtrip [of message bs Strict] by (simp add: submit_of_def)
  qed
qed

theorem send_sms_payload_witness:
  "send_sms env_up [0x31, 0x32, 0x33] [0x48, 0x69] world_running =
     (Inr True,
      world_running\<lparr>trace :=
        [Call (SendMessage 0 (submit_of [0x31, 0x32, 0x33] [0, 0x48, 0, 0x69])) None,
         Log Info (LogSmsSent [0x31, 0x32, 0x33] [0x48, 0x69])]\<rparr>) \<and>
   short_message (submit_of [0x31, 0x32, 0x33] [0, 0x48, 0, 0x69]) = [0, 0x48, 0, 0x69] \<and>
   utf16be_encode [0x48, 0x69] = Inr [0, 0x48, 0, 0x69] \<and>
   utf16be_decode Strict [0, 0x48, 0, 0x69] = Inr [0x48, 0x69] \<and>
   data_coding (submit_of [0x31, 0x32, 0x33] [0, 0x48, 0, 0x69]) = 8"
proof -
  have nb: "\<not> not_bound env_up world_running"
    by (simp add: not_bound_def world_running_def env_up_def)
  have c: "client world_running = Some 0" by (simp add: world_running_def)
  have s: "send_sms env_up [0x31, 0x32, 0x33] [0x48, 0x69] world_running =
     (Inr True,
      world_running\<lparr>trace :=
        [Call (SendMessage 0 (submit_of [0x31, 0x32, 0x33] [0, 0x48, 0, 0x69])) None,
         Log Info (LogSmsSent [0x31, 0x32, 0x33] [0x48, 0x69])]\<rparr>)"
    using send_sms_bound [OF nb encode_Hi c, of "[0x31, 0x32, 0x33]"]
    by (simp add: submit_def env_up_def world_running_def)
  have m: "Call (SendMessage 0 (submit_of [0x31, 0x32, 0x33] [0, 0x48, 0, 0x69])) None
      \<in> set (new_events world_running
          (world_running\<lparr>trace :=
            [Call (SendMessage 0 (submit_of [0x31, 0x32, 0x33] [0, 0x48, 0, 0x69])) None,
             Log Info (LogSmsSent [0x31, 0x32, 0x33] [0x48, 0x69])]\<rparr>))"
    by (simp add: new_events_def world_running_def)
  show ?thesis
    using send_sms_payload [OF s m] s encode_Hi decode_Hi
    by (simp add: submit_of_def del: utf16be_encode.simps utf16be_decode.simps)
qed

section \<open>The receive callback\<close>

lemma forwarded_append [simp]: "forwarded (xs @ ys) = forwarded xs @ forwarded ys"
  by (induction xs rule: forwarded.induct) simp_all

lemmas incoming_defs = handle_incoming_sms_def incoming_body_def incoming_handler_def
  except_Exception_def logger_def emit_event_def Let_def

lemma handle_incoming_sms_queue:
  "message_queue (snd (handle_incoming_sms p w)) = message_queue w @ enqueued p"
  by (simp add: incoming_defs enqueued_def world_start_def split: sum.splits option.splits)

lemma handle_incoming_sms_forwarded:
  "forwarded (trace (snd (handle_incoming_sms p w))) = forwarded (trace w)"
  by (simp add: incoming_defs split: sum.splits option.splits)

lemma enqueued_deliver_sm_frame:
  "enqueued (deliver_sm_frame sa raw) =
     [(map unat (filter (\<lambda>b. unat b < 128) sa), map unat raw)]"
  by (simp add: enqueued_def incoming_defs deliver_sm_frame_def world_start_def getattr_def
        getattr_default_def decode_method_def hex_method_def decode_payload_def latin1_decode_def
        ascii_decode_ignore)

text \<open>
  Claim C2, as it stands: the indicator of the frame selects the decoder, decoding never
  raises, and an invalid byte sequence is replaced by a substitution character. The last
  part fails: the callback decodes with \<open>errors='ignore'\<close>. A high surrogate that is
  not followed by a low one is invalid UTF-16 (the strict decoder raises, \<open>replace\<close>
  puts U+FFFD), and the text that the callback puts on the queue has nothing in its place.
\<close>

theorem decode_payload_drops_invalid:
  "utf16be_decode Strict [0xD8, 0x00, 0x00, 0x41] = Inl UnicodeDecodeError \<and>
   utf16be_decode Replace [0xD8, 0x00, 0x00, 0x41] = Inr [0xFFFD, 0x41] \<and>
   decode_payload (PyInt 8) (PyBytes [0xD8, 0x00, 0x00, 0x41]) = Inr [0x41] \<and>
   message_queue (snd (handle_incoming_sms
      (ucs2_frame [0x31, 0x32, 0x33] [0xD8, 0x00, 0x00, 0x41]) world_start))
     = [([0x31, 0x32, 0x33], [0x41])]"
  by (simp add: incoming_defs ucs2_frame_def world_start_def getattr_def getattr_default_def
        hex_method_def ascii_decode_ignore decode_payload_def decode_method_def unit16_def
        is_surrogate_def is_high_surrogate_def is_low_surrogate_def)

text \<open>
  Claim C2, amended: for every inbound delivery frame whose sender and payload are byte
  strings the callback does not raise and puts the sender with the decoded payload on
  the queue, and the decoding is selected by the encoding indicator of the frame.
  Indicator 8 yields the UTF-16-BE decoding with \<open>errors='ignore'\<close>: it is the strict
  UTF-16-BE decoding whenever the payload is valid; otherwise the undecodable ranges are
  dropped and no substitution character is put in: the text is what \<open>replace\<close> would
  give without substitution characters (it has the same characters other than U+FFFD in
  the same order, and is shorter), and it has U+FFFD only as often as the payload itself
  has the unit FFFD. Indicator 0, a missing indicator and every other value yield the
  latin-1 decoding, one character for each byte.
\<close>

theorem inbound_decoding_policy:
  assumes "p ''command'' = Some (PyStr (of_ascii ''deliver_sm''))"
      and "p ''source_addr'' = Some (PyBytes sa)"
      and "p ''short_message'' = Some (PyBytes raw)"
  shows "\<exists>content.
     handle_incoming_sms p w =
       (Inr (),
        w\<lparr>trace := trace w @
             [Log Info (LogSmsReceived (map unat (filter (\<lambda>b. unat b < 128) sa)) content
                (case p ''data_coding'' of None \<Rightarrow> PyInt 0 | Some dc \<Rightarrow> dc) raw)],
          message_queue := message_queue w @
             [(map unat (filter (\<lambda>b. unat b < 128) sa), content)]\<rparr>) \<and>
     (p ''data_coding'' = Some (PyInt 8) \<longrightarrow>
        utf16be_decode Ignore raw = Inr content \<and>
        (\<forall>s. utf16be_decode Strict raw = Inr s \<longrightarrow> content = s) \<and>
        (\<exists>t. utf16be_decode Replace raw = Inr t \<and> subseq content t \<and>
             filter (\<lambda>c. c \<noteq> 0xFFFD) content = filter (\<lambda>c. c \<noteq> 0xFFFD) t \<and>
             (isl (utf16be_decode Strict raw) \<longrightarrow> length content < length t)) \<and>
        count_list content 0xFFFD = count_list (code_units raw) 0xFFFD) \<and>
     (p ''data_coding'' \<noteq> Some (PyInt 8) \<longrightarrow> content = map unat raw)"
proof (cases "p ''data_coding'' = Some (PyInt 8)")
  case True
  obtain s t where d: "utf16be_decode Ignore raw = Inr s" "utf16be_decode Replace raw = Inr t"
      "filter (\<lambda>c. c \<noteq> 0xFFFD) s = filter (\<lambda>c. c \<noteq> 0xFFFD) t"
      "isl (utf16be_decode Strict raw) \<longrightarrow> length s < length t"
      "count_list s 0xFFFD = count_list (code_units raw) 0xFFFD"
    using utf16be_ignore_replace [of raw] by (elim exE conjE) (rule that, assumption+)
  have sub: "subseq s t"
    using utf16be_ignore_subseq_replace [OF refl d(1) d(2)] .
  have strict: "\<forall>s'. utf16be_decode Strict raw = Inr s' \<longrightarrow> s = s'"
    using utf16be_decode_strict_any [of raw _ Ignore] d(1) by auto
  have run: "handle_incoming_sms p w =
       (Inr (),
        w\<lparr>trace := trace w @
             [Log Info (LogSmsReceived (map unat (filter (\<lambda>b. unat b < 128) sa)) s
                (case p ''data_coding'' of None \<Rightarrow> PyInt 0 | Some dc \<Rightarrow> dc) raw)],
          message_queue := message_queue w @
             [(map unat (filter (\<lambda>b. unat b < 128) sa), s)]\<rparr>)"
    using assms True d(1)
    by (simp add: incoming_defs getattr_def getattr_default_def decode_method_def
          hex_method_def decode_payload_def ascii_decode_ignore del: utf16be_decode.simps)
  show ?thesis
    using run True d sub strict by (intro exI [of _ s]) blast
next
  case False
  have run: "handle_incoming_sms p w =
       (Inr (),
        w\<lparr>trace := trace w @
             [Log Info (LogSmsReceived (map unat (filter (\<lambda>b. unat b < 128) sa)) (map unat raw)
                (case p ''data_coding'' of None \<Rightarrow> PyInt 0 | Some dc \<Rightarrow> dc) raw)],
          message_queue := message_queue w @
             [(map unat (filter (\<lambda>b. unat b < 128) sa), map unat raw)]\<rparr>)"
    using assms False
    by (simp add: incoming_defs getattr_def getattr_default_def decode_method_def
          hex_method_def decode_payload_def latin1_decode_def ascii_decode_ignore
          split: option.splits)
  show ?thesis
    using run False by (intro exI [of _ "map unat raw"]) simp
qed

theorem inbound_decoding_policy_witness:
  "ucs2_frame [0x31] [0, 0x48, 0, 0x69] ''command'' = Some (PyStr (of_ascii ''deliver_sm'')) \<and>
   ucs2_frame [0x31] [0, 0x48, 0, 0x69] ''source_addr'' = Some (PyBytes [0x31]) \<and>
   ucs2_frame [0x31] [0, 0x48, 0, 0x69] ''short_message'' = Some (PyBytes [0, 0x48, 0, 0x69]) \<and>
   ucs2_frame [0x31] [0, 0x48, 0, 0x69] ''data_coding'' = Some (PyInt 8) \<and>
   utf16be_decode Strict [0, 0x48, 0, 0x69] = Inr [0x48, 0x69] \<and>
   message_queue (snd (handle_incoming_sms (ucs2_frame [0x31] [0, 0x48, 0, 0x69]) world_start))
     = [([0x31], [0x48, 0x69])] \<and>
   deliver_sm_frame [0x31] [0x48, 0xE9] ''data_coding'' \<noteq> Some (PyInt 8) \<and>
   message_queue (snd (handle_incoming_sms (deliver_sm_frame [0x31] [0x48, 0xE9]) world_start))
     = [([0x31], [0x48, 0xE9])]"
proof -
  have u: "ucs2_frame [0x31] [0, 0x48, 0, 0x69] ''command'' = Some (PyStr (of_ascii ''deliver_sm''))"
      "ucs2_frame [0x31] [0, 0x48, 0, 0x69] ''source_addr'' = Some (PyBytes [0x31])"
      "ucs2_frame [0x31] [0, 0x48, 0, 0x69] ''short_message'' = Some (PyBytes [0, 0x48, 0, 0x69])"
      "ucs2_frame [0x31] [0, 0x48, 0, 0x69] ''data_coding'' = Some (PyInt 8)"
    by (simp_all add: ucs2_frame_def)
  have l: "deliver_sm_frame [0x31] [0x48, 0xE9] ''command'' = Some (PyStr (of_ascii ''deliver_sm''))"
      "deliver_sm_frame [0x31] [0x48, 0xE9] ''source_addr'' = Some (PyBytes [0x31])"
      "deliver_sm_frame [0x31] [0x48, 0xE9] ''short_message'' = Some (PyBytes [0x48, 0xE9])"
      "deliver_sm_frame [0x31] [0x48, 0xE9] ''data_coding'' \<noteq> Some (PyInt 8)"
    by (simp_all add: deliver_sm_frame_def)
  have a: "message_queue (snd (handle_incoming_sms (ucs2_frame [0x31] [0, 0x48, 0, 0x69])
        world_start)) = [([0x31], [0x48, 0x69])]"
    using inbound_decoding_policy [OF u(1) u(2) u(3), of world_start] u(4) decode_Hi
    by (auto simp: world_start_def simp del: utf16be_decode.simps)
  have b: "message_queue (snd (handle_incoming_sms (deliver_sm_frame [0x31] [0x48, 0xE9])
        world_start)) = [([0x31], [0x48, 0xE9])]"
    using inbound_decoding_policy [OF l(1) l(2) l(3), of world_start] l(4)
    by (auto simp: world_start_def simp del: utf16be_decode.simps)
  show ?thesis using u l(4) decode_Hi a b by (simp del: utf16be_decode.simps)
qed

text \<open>
  Claim C6 says that the callback never raises. The handler of its \<open>try\<close> formats
  \<open>raw_message.hex()\<close> into the log record; for the frame of an empty message the
  payload is \<open>None\<close>, the body raises AttributeError at \<open>decode\<close>, and the handler
  raises AttributeError again at \<open>hex\<close>: the exception leaves the callback, and nothing
  is logged.
\<close>

theorem handle_incoming_sms_raises:
  "handle_incoming_sms empty_sms_frame w = (Inl AttributeError, w)"
  by (simp add: incoming_defs empty_sms_frame_def getattr_def getattr_default_def
        decode_method_def hex_method_def decode_payload_def ascii_decode_ignore)



section \<open>The relay queue and its consumer\<close>

lemmas consumer_defs = consumer_iteration_def queue_get_def except_queue_Empty_def
  bindE_def try_except_def logger_def emit_event_def lib_call_def

lemma consumer_iteration_fifo:
  "forwarded (trace (snd (consumer_iteration en w))) @ message_queue (snd (consumer_iteration en w))
     = forwarded (trace w) @ message_queue w"
  by (simp add: consumer_defs split: list.splits option.splits prod.splits)

lemma consumer_iteration_head:
  "message_queue w = m # ms \<Longrightarrow>
     forwarded (new_events w (snd (consumer_iteration en w))) = [m] \<and>
     message_queue (snd (consumer_iteration en w)) = ms"
  by (cases m) (simp add: consumer_defs new_events_def split: option.splits)

lemma handle_incoming_sms_deliver_sm_frame:
  "handle_incoming_sms (deliver_sm_frame sa raw) w =
     (Inr (),
      w\<lparr>trace := trace w @
           [Log Info (LogSmsReceived (map unat (filter (\<lambda>b. unat b < 128) sa))
              (map unat raw) (PyInt 0) raw)],
        message_queue := message_queue w @
           [(map unat (filter (\<lambda>b. unat b < 128) sa), map unat raw)]\<rparr>)"
  by (simp add: incoming_defs deliver_sm_frame_def getattr_def getattr_default_def
        decode_method_def hex_method_def decode_payload_def latin1_decode_def ascii_decode_ignore)

lemma consumer_iteration_env_up:
  "message_queue w = (a, b) # ms \<Longrightarrow>
     consumer_iteration env_up w =
       (Inr (), w\<lparr>message_queue := ms,
                  trace := trace w @ [Log Debug (LogToTelegram a b),
                                      Call (BotSendMessage a b) None]\<rparr>)"
  by (simp add: consumer_defs env_up_def)

lemma run_schedule_fifo:
  "forwarded (trace (snd (run_schedule en sched s))) @
     message_queue (snd (run_schedule en sched s))
     = forwarded (trace (snd s)) @ message_queue (snd s) @ concat (map delivered sched)"
proof (induction en sched s rule: run_schedule.induct)
  case (1 en s)
  then show ?case by simp
next
  case (2 en p as alive w)
  then show ?case
    by (simp add: handle_incoming_sms_queue handle_incoming_sms_forwarded)
next
  case (3 en as alive w)
  show ?case
  proof (cases alive)
    case False
    then show ?thesis using 3 by simp
  next
    case True
    obtain r w' where c: "consumer_iteration en w = (r, w')"
      by (cases "consumer_iteration en w")
    have inv: "forwarded (trace w') @ message_queue w' = forwarded (trace w) @ message_queue w"
      using consumer_iteration_fifo [of en w] c by simp
    show ?thesis
      using True c inv "3.IH"
      by (cases r) (simp_all add: append_assoc [symmetric] del: append_assoc)
  qed
qed

text \<open>
  Claim C7: the relay queue keeps the order of arrival. Whatever the order in which the
  callback and the consumer run, the messages handed to \<open>bot.send_message\<close> so far,
  followed by the messages still waiting, are the messages in the order in which the
  callback put them; and a pass of the consumer over a queue that is not empty takes
  its oldest message and hands that one on.
\<close>

theorem relay_queue_fifo:
  "forwarded (trace (snd (run_schedule en sched (alive, w)))) @
     message_queue (snd (run_schedule en sched (alive, w)))
     = forwarded (trace w) @ message_queue w @ concat (map delivered sched) \<and>
   (\<forall>m ms. message_queue w = m # ms \<longrightarrow>
      forwarded (new_events w (snd (consumer_iteration en w))) = [m] \<and>
      message_queue (snd (consumer_iteration en w)) = ms)"
  using run_schedule_fifo [of en sched "(alive, w)"] consumer_iteration_head [of w _ _ en]
  by simp

theorem relay_queue_fifo_witness:
  "message_queue (world_start\<lparr>message_queue := [([0x31], [0x41])]\<rparr>) = [([0x31], [0x41])] \<and>
   forwarded (new_events (world_start\<lparr>message_queue := [([0x31], [0x41])]\<rparr>)
     (snd (consumer_iteration env_up (world_start\<lparr>message_queue := [([0x31], [0x41])]\<rparr>))))
     = [([0x31], [0x41])] \<and>
   forwarded (trace (snd (run_schedule env_up
      [Deliver (deliver_sm_frame [0x31] [0x41]), Deliver (deliver_sm_frame [0x32] [0x42]),
       Consume, Deliver (deliver_sm_frame [0x33] [0x43]), Consume, Consume]
      (True, world_start))))
     = [([0x31], [0x41]), ([0x32], [0x42]), ([0x33], [0x43])] \<and>
   message_queue (snd (run_schedule env_up
      [Deliver (deliver_sm_frame [0x31] [0x41]), Deliver (deliver_sm_frame [0x32] [0x42]),
       Consume, Deliver (deliver_sm_frame [0x33] [0x43]), Consume, Consume]
      (True, world_start))) = []"
proof -
  have q: "message_queue (snd (run_schedule env_up
      [Deliver (deliver_sm_frame [0x31] [0x41]), Deliver (deliver_sm_frame [0x32] [0x42]),
       Consume, Deliver (deliver_sm_frame [0x33] [0x43]), Consume, Consume]
      (True, world_start))) = []"
    by (simp add: handle_incoming_sms_deliver_sm_frame consumer_iteration_env_up world_start_def)
  have e: "enqueued (deliver_sm_frame [0x31] [0x41]) = [([0x31], [0x41])]"
      "enqueued (deliver_sm_frame [0x32] [0x42]) = [([0x32], [0x42])]"
      "enqueued (deliver_sm_frame [0x33] [0x43]) = [([0x33], [0x43])]"
    by (simp_all add: enqueued_deliver_sm_frame)
  show ?thesis
    using relay_queue_fifo [of env_up
        "[Deliver (deliver_sm_frame [0x31] [0x41]), Deliver (deliver_sm_frame [0x32] [0x42]),
          Consume, Deliver (deliver_sm_frame [0x33] [0x43]), Consume, Consume]" True world_start]
      relay_queue_fifo [of env_up "[]" True "world_start\<lparr>message_queue := [([0x31], [0x41])]\<rparr>"]
      q e
    by (simp add: world_start_def)
qed

text \<open>
  Claim C3 says that a forwarding failure is logged, the message dropped, and the loop
  goes on. The loop of \<open>process_incoming_messages\<close> catches \<open>queue.Empty\<close> only:
  with two messages waiting and a chat platform that cannot be reached, the exception
  of \<open>bot.send_message\<close> leaves the loop on the first pass, however many passes are
  allowed; nothing is logged for it, and the second message stays on the queue.
\<close>

theorem process_incoming_messages_stops:
  "process_incoming_messages env_bot_fails (Suc n)
     (world_start\<lparr>message_queue := [([0x31], [0x41]), ([0x32], [0x42])]\<rparr>) =
     (Inl (LibraryError ''NetworkError''),
      world_start\<lparr>message_queue := [([0x32], [0x42])],
        trace := [Log Debug (LogToTelegram [0x31] [0x41]),
                  Call (BotSendMessage [0x31] [0x41]) (Some (LibraryError ''NetworkError''))]\<rparr>)"
  by (simp add: consumer_defs env_bot_fails_def world_start_def)

section \<open>The keep-alive loop\<close>

lemma connect_smpp_events:
  "\<exists>r w' out post. connect_smpp en w = (r, w') \<and>
     trace w' = trace w @ Call NewClient out # post \<and>
     connect_attempts (Call NewClient out # post) = 1 \<and>
     (\<forall>d. TimeSleep d \<notin> set post) \<and>
     ((\<exists>c. r = Inr c) \<longrightarrow> failures (Call NewClient out # post) = []) \<and>
     (\<forall>e. r = Inl e \<longrightarrow> failures (Call NewClient out # post) = [e]) \<and>
     filter is_probe_call (calls post) = []"
  unfolding connect_smpp_def prog_defs
  by (auto simp: connect_attempts_def failures_def split: option.splits sum.splits)

lemma teardown_result:
  "\<exists>r w' evs. teardown en w = (r, w') \<and> trace w' = trace w @ evs \<and> client w' = client w \<and>
     connect_attempts evs = 0 \<and> (\<forall>d. TimeSleep d \<notin> set evs) \<and>
     ((\<exists>u. r = Inr u) \<longrightarrow> failures evs = []) \<and>
     (\<forall>e. r = Inl e \<longrightarrow> failures evs = [e]) \<and>
     (client w = None \<longrightarrow> evs = []) \<and>
     (\<forall>c. client w = Some c \<longrightarrow> take 1 (calls evs) = [Unbind c] \<and>
        ((\<exists>u. r = Inr u) \<longrightarrow> evs = [Call (Unbind c) None, Call (Disconnect c) None])) \<and>
     filter is_probe_call (calls evs) = [] \<and>
     (\<forall>c e. r = Inl e \<longrightarrow> Call (Disconnect c) None \<notin> set evs)"
  unfolding teardown_def prog_defs
  by (auto simp: connect_attempts_def failures_def split: option.splits sum.splits)

lemma keep_alive_body_probing:
  assumes "probing en w"
  shows "\<exists>r w' evs c. keep_alive_body en w = (r, w') \<and> trace w' = trace w @ evs \<and>
     client w = Some c \<and> client w' = client w \<and>
     filter is_reconnect_call (calls evs) = [] \<and> take 1 (calls evs) = [MakeEnquireLink c] \<and>
     (\<forall>d. TimeSleep d \<notin> set evs) \<and>
     ((\<exists>u. r = Inr u) \<longrightarrow> failures evs = []) \<and>
     (\<forall>e. r = Inl e \<longrightarrow> failures evs = [e]) \<and>
     calls evs = (if Call (MakeEnquireLink c) None \<in> set evs
                  then [MakeEnquireLink c, SendPdu c] else [MakeEnquireLink c])"
  using assms unfolding keep_alive_body_def probing_def prog_defs
  by (auto simp: failures_def split: option.splits sum.splits)

lemma keep_alive_body_not_probing:
  assumes "\<not> probing en w"
  shows "keep_alive_body en w =
     (case teardown en (w\<lparr>trace := trace w @ [Log Warning LogReconnecting]\<rparr>) of
        (Inl e, w1) \<Rightarrow> (Inl e, w1)
      | (Inr u, w1) \<Rightarrow>
          (case connect_smpp en w1 of
             (Inl e, w2) \<Rightarrow> (Inl e, w2)
           | (Inr c, w2) \<Rightarrow> (Inr (), w2\<lparr>client := Some c\<rparr>)))"
  using assms unfolding keep_alive_body_def
  by (simp add: bindE_def logger_def emit_event_def set_client_def
        split: prod.splits sum.splits)

lemma keep_alive_body_reconnecting:
  assumes np: "\<not> probing en w"
  shows "\<exists>r w' evs. keep_alive_body en w = (r, w') \<and>
     trace w' = trace w @ Log Warning LogReconnecting # evs \<and>
     connect_attempts evs \<le> 1 \<and>
     (\<forall>d. TimeSleep d \<notin> set evs) \<and>
     ((\<exists>u. r = Inr u) \<longrightarrow> failures evs = []) \<and>
     (\<forall>e. r = Inl e \<longrightarrow> failures evs = [e]) \<and>
     (client w = None \<longrightarrow> (\<exists>out post. evs = Call NewClient out # post)) \<and>
     (\<forall>c. client w = Some c \<longrightarrow> take 1 (calls evs) = [Unbind c] \<and>
        (connect_attempts evs = 1 \<longrightarrow>
           (\<exists>out post. evs = Call (Unbind c) None # Call (Disconnect c) None #
                               Call NewClient out # post))) \<and>
     filter is_probe_call (calls evs) = [] \<and>
     (client w = None \<longrightarrow> connect_attempts evs = 1) \<and>
     (\<forall>c. client w = Some c \<longrightarrow>
        Call (Unbind c) None \<in> set evs \<and> Call (Disconnect c) None \<in> set evs \<longrightarrow>
        connect_attempts evs = 1)"
proof -
  let ?w0 = "w\<lparr>trace := trace w @ [Log Warning LogReconnecting]\<rparr>"
  obtain r1 w1 evs1 where t: "teardown en ?w0 = (r1, w1)" "trace w1 = trace ?w0 @ evs1"
      "client w1 = client ?w0" "connect_attempts evs1 = 0" "\<forall>d. TimeSleep d \<notin> set evs1"
      "(\<exists>u. r1 = Inr u) \<longrightarrow> failures evs1 = []" "\<forall>e. r1 = Inl e \<longrightarrow> failures evs1 = [e]"
      "client ?w0 = None \<longrightarrow> evs1 = []"
      "\<forall>c. client ?w0 = Some c \<longrightarrow> take 1 (calls evs1) = [Unbind c] \<and>
         ((\<exists>u. r1 = Inr u) \<longrightarrow> evs1 = [Call (Unbind c) None, Call (Disconnect c) None])"
      "filter is_probe_call (calls evs1) = []"
      "\<forall>c e. r1 = Inl e \<longrightarrow> Call (Disconnect c) None \<notin> set evs1"
    using teardown_result [of en ?w0] by (elim exE conjE) (rule that, assumption+)
  show ?thesis
  proof (cases r1)
    case (Inl e)
    have "keep_alive_body en w = (Inl e, w1)"
      using keep_alive_body_not_probing [OF np] t(1) Inl by simp
    moreover have "trace w1 = trace w @ Log Warning LogReconnecting # evs1"
      using t(2) by simp
    moreover have "client w \<noteq> None" using t(7,8) Inl by auto
    ultimately show ?thesis
      using t Inl by auto
  next
    case (Inr u)
    obtain r2 w2 out post where k: "connect_smpp en w1 = (r2, w2)"
        "trace w2 = trace w1 @ Call NewClient out # post"
        "connect_attempts (Call NewClient out # post) = 1"
        "\<forall>d. TimeSleep d \<notin> set post"
        "(\<exists>c. r2 = Inr c) \<longrightarrow> failures (Call NewClient out # post) = []"
        "\<forall>e. r2 = Inl e \<longrightarrow> failures (Call NewClient out # post) = [e]"
        "filter is_probe_call (calls post) = []"
      using connect_smpp_events [of en w1] by (elim exE conjE) (rule that, assumption+)
    define evs where "evs = evs1 @ Call NewClient out # post"
    have tr: "trace w2 = trace w @ Log Warning LogReconnecting # evs"
      using t(2) k(2) by (simp add: evs_def)
    have a1: "connect_attempts evs = 1"
      using t(4) k(3) by (simp add: evs_def)
    have a2: "\<forall>d. TimeSleep d \<notin> set evs"
      using t(5) k(4) by (simp add: evs_def)
    have a3: "failures evs = failures (Call NewClient out # post)"
      using t(6) Inr by (simp add: evs_def)
    have a4: "client w = None \<longrightarrow> (\<exists>out post. evs = Call NewClient out # post)"
      using t(8) by (simp add: evs_def)
    have a5: "\<forall>c. client w = Some c \<longrightarrow> take 1 (calls evs) = [Unbind c] \<and>
        (\<exists>out post. evs = Call (Unbind c) None # Call (Disconnect c) None #
                            Call NewClient out # post)"
      using t(9) Inr by (auto simp: evs_def)
    have a6: "filter is_probe_call (calls evs) = []"
      using t(10) k(7) by (simp add: evs_def)
    have rest: "connect_attempts evs \<le> 1 \<and>
       (\<forall>d. TimeSleep d \<notin> set evs) \<and>
       (client w = None \<longrightarrow> (\<exists>out post. evs = Call NewClient out # post)) \<and>
       (\<forall>c. client w = Some c \<longrightarrow> take 1 (calls evs) = [Unbind c] \<and>
          (connect_attempts evs = 1 \<longrightarrow>
             (\<exists>out post. evs = Call (Unbind c) None # Call (Disconnect c) None #
                                 Call NewClient out # post))) \<and>
       filter is_probe_call (calls evs) = [] \<and>
       (client w = None \<longrightarrow> connect_attempts evs = 1) \<and>
       (\<forall>c. client w = Some c \<longrightarrow>
          Call (Unbind c) None \<in> set evs \<and> Call (Disconnect c) None \<in> set evs \<longrightarrow>
          connect_attempts evs = 1)"
      using a1 a2 a4 a5 a6 by simp
    show ?thesis
    proof (cases r2)
      case (Inl e)
      have "keep_alive_body en w = (Inl e, w2)"
        using keep_alive_body_not_probing [OF np] t(1) Inr k(1) Inl by simp
      moreover have "failures evs = [e]" using a3 k(6) Inl by simp
      ultimately show ?thesis
        using tr rest
        by (intro exI [of _ "Inl e"] exI [of _ w2] exI [of _ evs]) simp
    next
      case (Inr c)
      have "keep_alive_body en w = (Inr (), w2\<lparr>client := Some c\<rparr>)"
        using keep_alive_body_not_probing [OF np] t(1) \<open>r1 = Inr u\<close> k(1) Inr by simp
      moreover have "failures evs = []" using a3 k(5) Inr by simp
      ultimately show ?thesis
        using tr rest
        by (intro exI [of _ "Inr ()"] exI [of _ "w2\<lparr>client := Some c\<rparr>"] exI [of _ evs])
           simp
    qed
  qed
qed

lemma keep_alive_iteration_body:
  "keep_alive_iteration en w =
     (case keep_alive_body en w of
        (Inl e, w') \<Rightarrow>
          (Inr (), w'\<lparr>trace := trace w' @ [Log Error (LogKeepAliveFailed e), TimeSleep 5,
                                          TimeSleep 30]\<rparr>)
      | (Inr u, w') \<Rightarrow> (Inr (), w'\<lparr>trace := trace w' @ [TimeSleep 30]\<rparr>))"
  by (simp add: keep_alive_iteration_def bindE_def try_except_def except_Exception_def
        logger_def time_sleep_def emit_event_def split: prod.splits sum.splits)

lemma keep_alive_iteration_returns: "\<exists>w'. keep_alive_iteration en w = (Inr (), w')"
  by (simp add: keep_alive_iteration_body split: prod.splits sum.splits)

lemma smpp_keep_alive_returns: "\<exists>w'. smpp_keep_alive en n w = (Inr (), w')"
proof (induction n arbitrary: w)
  case 0
  then show ?case by (simp add: returnE_def)
next
  case (Suc n)
  obtain w1 where "keep_alive_iteration en w = (Inr (), w1)"
    using keep_alive_iteration_returns by blast
  then show ?case using Suc [of w1] by (simp add: bindE_def)
qed

lemma keep_alive_body_events:
  "\<exists>r w' pre. keep_alive_body en w = (r, w') \<and> trace w' = trace w @ pre \<and>
     (\<forall>d. TimeSleep d \<notin> set pre) \<and>
     ((\<exists>u. r = Inr u) \<longrightarrow> failures pre = []) \<and>
     (\<forall>e. r = Inl e \<longrightarrow> failures pre = [e])"
proof (cases "probing en w")
  case True
  then show ?thesis using keep_alive_body_probing [OF True] by blast
next
  case False
  obtain r w' evs where b: "keep_alive_body en w = (r, w')"
      "trace w' = trace w @ Log Warning LogReconnecting # evs"
      "\<forall>d. TimeSleep d \<notin> set evs"
      "(\<exists>u. r = Inr u) \<longrightarrow> failures evs = []"
      "\<forall>e. r = Inl e \<longrightarrow> failures evs = [e]"
    using keep_alive_body_reconnecting [OF False] by (elim exE conjE) (rule that, assumption+)
  show ?thesis
    using b by (intro exI [of _ r] exI [of _ w'] exI [of _ "Log Warning LogReconnecting # evs"]) auto
qed

lemma keep_alive_iteration_events:
  "\<exists>w' pre. keep_alive_iteration en w = (Inr (), w') \<and> (\<forall>d. TimeSleep d \<notin> set pre) \<and>
      (failures pre = [] \<and> trace w' = trace w @ pre @ [TimeSleep 30] \<or>
       (\<exists>e. failures pre = [e] \<and>
            trace w' = trace w @ pre @ [Log Error (LogKeepAliveFailed e), TimeSleep 5,
                                        TimeSleep 30]))"
proof -
  obtain r w1 pre where b: "keep_alive_body en w = (r, w1)" "trace w1 = trace w @ pre"
      "\<forall>d. TimeSleep d \<notin> set pre" "(\<exists>u. r = Inr u) \<longrightarrow> failures pre = []"
      "\<forall>e. r = Inl e \<longrightarrow> failures pre = [e]"
    using keep_alive_body_events [of en w] by (elim exE conjE) (rule that, assumption+)
  show ?thesis
  proof (cases r)
    case (Inl e)
    then show ?thesis
      using b by (intro exI [of _ "w1\<lparr>trace := trace w1 @ [Log Error (LogKeepAliveFailed e),
          TimeSleep 5, TimeSleep 30]\<rparr>"] exI [of _ pre]) (simp add: keep_alive_iteration_body)
  next
    case (Inr u)
    then show ?thesis
      using b by (intro exI [of _ "w1\<lparr>trace := trace w1 @ [TimeSleep 30]\<rparr>"] exI [of _ pre])
        (simp add: keep_alive_iteration_body)
  qed
qed

lemma ticks_append [simp]: "ticks (xs @ ys) = ticks xs + ticks ys"
  by (simp add: ticks_def)

lemma ticks_none: "\<forall>d. TimeSleep d \<notin> set pre \<Longrightarrow> ticks pre = 0"
  by (induction pre) (auto simp: ticks_def)

lemma keep_alive_iteration_tick:
  "\<exists>w' evs. keep_alive_iteration en w = (Inr (), w') \<and> trace w' = trace w @ evs \<and>
     ticks evs = 1"
proof -
  obtain w' pre where i: "keep_alive_iteration en w = (Inr (), w')"
      "\<forall>d. TimeSleep d \<notin> set pre"
      "failures pre = [] \<and> trace w' = trace w @ pre @ [TimeSleep 30] \<or>
       (\<exists>e. failures pre = [e] \<and>
            trace w' = trace w @ pre @ [Log Error (LogKeepAliveFailed e), TimeSleep 5,
                                        TimeSleep 30])"
    using keep_alive_iteration_events [of en w] by (elim exE conjE) (rule that, assumption+)
  have z: "ticks pre = 0" using i(2) by (rule ticks_none)
  from i(3) show ?thesis
  proof
    assume "failures pre = [] \<and> trace w' = trace w @ pre @ [TimeSleep 30]"
    then show ?thesis
      using i(1) z by (intro exI [of _ w'] exI [of _ "pre @ [TimeSleep 30]"]) (simp add: ticks_def)
  next
    assume "\<exists>e. failures pre = [e] \<and>
            trace w' = trace w @ pre @ [Log Error (LogKeepAliveFailed e), TimeSleep 5,
                                        TimeSleep 30]"
    then obtain e where "trace w' = trace w @ pre @ [Log Error (LogKeepAliveFailed e),
        TimeSleep 5, TimeSleep 30]" by blast
    then show ?thesis
      using i(1) z
      by (intro exI [of _ w'] exI [of _ "pre @ [Log Error (LogKeepAliveFailed e), TimeSleep 5,
          TimeSleep 30]"]) (simp add: ticks_def)
  qed
qed

lemma smpp_keep_alive_ticks:
  "\<exists>w' evs. smpp_keep_alive en n w = (Inr (), w') \<and> trace w' = trace w @ evs \<and> ticks evs = n"
proof (induction n arbitrary: w)
  case 0
  then show ?case by (simp add: returnE_def ticks_def)
next
  case (Suc n)
  obtain w1 evs1 where a: "keep_alive_iteration en w = (Inr (), w1)" "trace w1 = trace w @ evs1"
      "ticks evs1 = 1"
    using keep_alive_iteration_tick [of en w] by (elim exE conjE) (rule that, assumption+)
  obtain w2 evs2 where b: "smpp_keep_alive en n w1 = (Inr (), w2)" "trace w2 = trace w1 @ evs2"
      "ticks evs2 = n"
    using Suc [of w1] by (elim exE conjE) (rule that, assumption+)
  show ?case
    using a b by (intro exI [of _ w2] exI [of _ "evs1 @ evs2"]) (simp add: bindE_def)
qed

text \<open>
  Claim C5: the keep-alive loop is never left by an exception. For every number of passes
  the loop completes them all and is still running; in each pass an exception of the
  body (of the probe, of unbind or disconnect, or of the reconnect) is caught, logged and
  followed by \<open>time.sleep(5)\<close>, and every pass ends with \<open>time.sleep(30)\<close>.
\<close>

theorem keep_alive_never_terminates:
  "(\<exists>w' evs. smpp_keep_alive en n w = (Inr (), w') \<and> trace w' = trace w @ evs \<and>
       ticks evs = n) \<and>
   (\<exists>w' pre. keep_alive_iteration en w = (Inr (), w') \<and> (\<forall>d. TimeSleep d \<notin> set pre) \<and>
      (failures pre = [] \<and> trace w' = trace w @ pre @ [TimeSleep 30] \<or>
       (\<exists>e. failures pre = [e] \<and>
            trace w' = trace w @ pre @ [Log Error (LogKeepAliveFailed e), TimeSleep 5,
                                        TimeSleep 30])))"
  using smpp_keep_alive_ticks [of en n w] keep_alive_iteration_events [of en w]
  by (intro conjI)

lemma keep_alive_iteration_env_probe_fails:
  "client w = Some c \<Longrightarrow>
   keep_alive_iteration env_probe_fails w =
     (Inr (),
      w\<lparr>trace := trace w @
         [Call (MakeEnquireLink c) None,
          Call (SendPdu c) (Some (LibraryError ''ConnectionError'')),
          Log Error (LogKeepAliveFailed (LibraryError ''ConnectionError'')),
          TimeSleep 5, TimeSleep 30]\<rparr>)"
  by (simp add: keep_alive_iteration_body keep_alive_body_def probing_def prog_defs
        env_probe_fails_def)

theorem keep_alive_never_terminates_witness:
  "smpp_keep_alive env_probe_fails (Suc 0) world_running =
     (Inr (),
      world_running\<lparr>trace :=
         [Call (MakeEnquireLink 0) None,
          Call (SendPdu 0) (Some (LibraryError ''ConnectionError'')),
          Log Error (LogKeepAliveFailed (LibraryError ''ConnectionError'')),
          TimeSleep 5, TimeSleep 30]\<rparr>) \<and>
   (\<exists>w'. smpp_keep_alive env_probe_fails 7 world_running = (Inr (), w'))"
  using keep_alive_never_terminates [of env_probe_fails 7 world_running]
    keep_alive_iteration_env_probe_fails [of world_running 0]
  by (auto simp: world_running_def bindE_def returnE_def)

lemma keep_alive_iteration_suffix:
  "keep_alive_body en w = (r, w1) \<Longrightarrow>
     \<exists>sfx. keep_alive_iteration en w = (Inr (), w1\<lparr>trace := trace w1 @ sfx\<rparr>) \<and>
           calls sfx = [] \<and> connect_attempts sfx = 0 \<and> (\<forall>c out. Call c out \<notin> set sfx)"
proof (cases r)
  case (Inl e)
  assume "keep_alive_body en w = (r, w1)"
  then show ?thesis
    using Inl
    by (intro exI [of _ "[Log Error (LogKeepAliveFailed e), TimeSleep 5, TimeSleep 30]"])
       (simp add: keep_alive_iteration_body connect_attempts_def)
next
  case (Inr u)
  assume "keep_alive_body en w = (r, w1)"
  then show ?thesis
    using Inr
    by (intro exI [of _ "[TimeSleep 30]"])
       (simp add: keep_alive_iteration_body connect_attempts_def)
qed

lemma keep_alive_iteration_branches:
  "\<exists>w' evs. keep_alive_iteration en w = (Inr (), w') \<and> trace w' = trace w @ evs \<and>
     (probing en w \<longleftrightarrow> filter is_probe_call (calls evs) \<noteq> []) \<and>
     (probing en w \<longrightarrow>
        client w' = client w \<and> filter is_reconnect_call (calls evs) = [] \<and>
        (\<exists>c. client w = Some c \<and> take 1 (calls evs) = [MakeEnquireLink c] \<and>
             calls evs = (if Call (MakeEnquireLink c) None \<in> set evs
                          then [MakeEnquireLink c, SendPdu c] else [MakeEnquireLink c]))) \<and>
     (\<not> probing en w \<longrightarrow>
        connect_attempts evs \<le> 1 \<and>
        (client w = None \<longrightarrow>
           connect_attempts evs = 1 \<and>
           (\<exists>out post. evs = Log Warning LogReconnecting # Call NewClient out # post)) \<and>
        (\<forall>c. client w = Some c \<longrightarrow>
           take 1 (calls evs) = [Unbind c] \<and>
           (connect_attempts evs = 1 \<longrightarrow>
              (\<exists>out post. evs = Log Warning LogReconnecting # Call (Unbind c) None #
                                  Call (Disconnect c) None # Call NewClient out # post)) \<and>
           (Call (Unbind c) None \<in> set evs \<and> Call (Disconnect c) None \<in> set evs \<longrightarrow>
              connect_attempts evs = 1)))"
proof (cases "probing en w")
  case True
  obtain r w1 evs1 c where b: "keep_alive_body en w = (r, w1)" "trace w1 = trace w @ evs1"
      "client w = Some c" "client w1 = client w" "filter is_reconnect_call (calls evs1) = []"
      "take 1 (calls evs1) = [MakeEnquireLink c]"
      "calls evs1 = (if Call (MakeEnquireLink c) None \<in> set evs1
                     then [MakeEnquireLink c, SendPdu c] else [MakeEnquireLink c])"
    using keep_alive_body_probing [OF True] by (elim exE conjE) (rule that, assumption+)
  obtain sfx where s: "keep_alive_iteration en w = (Inr (), w1\<lparr>trace := trace w1 @ sfx\<rparr>)"
      "calls sfx = []" "\<forall>c out. Call c out \<notin> set sfx"
    using keep_alive_iteration_suffix [OF b(1)] by blast
  define evs where "evs = evs1 @ sfx"
  have tr: "trace (w1\<lparr>trace := trace w1 @ sfx\<rparr>) = trace w @ evs"
    using b(2) by (simp add: evs_def)
  have cl: "client (w1\<lparr>trace := trace w1 @ sfx\<rparr>) = client w"
    using b(4) by simp
  have ce: "calls evs = calls evs1" using s(2) by (simp add: evs_def)
  have m: "Call (MakeEnquireLink c) None \<in> set evs
      \<longleftrightarrow> Call (MakeEnquireLink c) None \<in> set evs1"
    using s(3) by (auto simp: evs_def)
  have pr: "filter is_probe_call (calls evs1) \<noteq> []"
    using b(7) by (auto split: if_splits)
  show ?thesis
    using True s(1) tr cl b(3,5,6,7) pr
    unfolding ce [symmetric] m [symmetric]
    by (intro exI [of _ "w1\<lparr>trace := trace w1 @ sfx\<rparr>"] exI [of _ evs]) simp
next
  case False
  obtain r w1 evs1 where b: "keep_alive_body en w = (r, w1)"
      "trace w1 = trace w @ Log Warning LogReconnecting # evs1"
      "connect_attempts evs1 \<le> 1"
      "client w = None \<longrightarrow> (\<exists>out post. evs1 = Call NewClient out # post)"
      "\<forall>c. client w = Some c \<longrightarrow> take 1 (calls evs1) = [Unbind c] \<and>
        (connect_attempts evs1 = 1 \<longrightarrow>
           (\<exists>out post. evs1 = Call (Unbind c) None # Call (Disconnect c) None #
                               Call NewClient out # post))"
      "filter is_probe_call (calls evs1) = []"
      "client w = None \<longrightarrow> connect_attempts evs1 = 1"
      "\<forall>c. client w = Some c \<longrightarrow>
        Call (Unbind c) None \<in> set evs1 \<and> Call (Disconnect c) None \<in> set evs1 \<longrightarrow>
        connect_attempts evs1 = 1"
    using keep_alive_body_reconnecting [OF False] by (elim exE conjE) (rule that, assumption+)
  obtain sfx where s: "keep_alive_iteration en w = (Inr (), w1\<lparr>trace := trace w1 @ sfx\<rparr>)"
      "calls sfx = []" "connect_attempts sfx = 0" "\<forall>c out. Call c out \<notin> set sfx"
    using keep_alive_iteration_suffix [OF b(1)] by blast
  define evs where "evs = Log Warning LogReconnecting # evs1 @ sfx"
  have tr: "trace (w1\<lparr>trace := trace w1 @ sfx\<rparr>) = trace w @ evs"
    using b(2) by (simp add: evs_def)
  have ce: "calls evs = calls evs1" using s(2) by (simp add: evs_def)
  have ca: "connect_attempts evs = connect_attempts evs1" using s(3) by (simp add: evs_def)
  have mem: "\<And>c out. Call c out \<in> set evs \<longleftrightarrow> Call c out \<in> set evs1"
    using s(4) by (auto simp: evs_def)
  have sh1: "client w = None \<longrightarrow>
      (\<exists>out post. evs = Log Warning LogReconnecting # Call NewClient out # post)"
    using b(4) by (auto simp: evs_def)
  have sh2: "\<forall>c. client w = Some c \<longrightarrow> connect_attempts evs1 = 1 \<longrightarrow>
      (\<exists>out post. evs = Log Warning LogReconnecting # Call (Unbind c) None #
                          Call (Disconnect c) None # Call NewClient out # post)"
    using b(5) by (auto simp: evs_def)
  have tk: "\<forall>c. client w = Some c \<longrightarrow> take 1 (calls evs1) = [Unbind c]"
    using b(5) by blast
  show ?thesis
    using False s(1) tr b(3,6,7,8) sh1 sh2 tk
    unfolding ce [symmetric] ca [symmetric] mem [symmetric]
    by (intro exI [of _ "w1\<lparr>trace := trace w1 @ sfx\<rparr>"] exI [of _ evs]) simp
qed

lemma smpp_keep_alive_bound_no_reconnect:
  assumes "\<forall>tr c. state_of en tr c = SMPP_CLIENT_STATE_OPEN
              \<or> state_of en tr c = SMPP_CLIENT_STATE_BOUND_TRX"
      and "client w \<noteq> None"
  shows "\<exists>w' evs. smpp_keep_alive en n w = (Inr (), w') \<and> trace w' = trace w @ evs \<and>
     client w' = client w \<and> filter is_reconnect_call (calls evs) = []"
  using assms(2)
proof (induction n arbitrary: w)
  case 0
  then show ?case by (simp add: returnE_def)
next
  case (Suc n)
  have p: "probing en w"
    using assms(1) Suc.prems by (auto simp: probing_def split: option.splits)
  obtain w1 evs1 where a0: "keep_alive_iteration en w = (Inr (), w1)" "trace w1 = trace w @ evs1"
      "probing en w \<longrightarrow>
        client w1 = client w \<and> filter is_reconnect_call (calls evs1) = [] \<and>
        (\<exists>c. client w = Some c \<and> take 1 (calls evs1) = [MakeEnquireLink c] \<and>
             calls evs1 = (if Call (MakeEnquireLink c) None \<in> set evs1
                           then [MakeEnquireLink c, SendPdu c] else [MakeEnquireLink c]))"
    using keep_alive_iteration_branches [of en w] by (elim exE conjE) (rule that, assumption+)
  have a: "keep_alive_iteration en w = (Inr (), w1)" "trace w1 = trace w @ evs1"
      "client w1 = client w" "filter is_reconnect_call (calls evs1) = []"
    using a0 p by simp_all
  have c1: "client w1 \<noteq> None" using a(3) Suc.prems by simp
  obtain w2 evs2 where b: "smpp_keep_alive en n w1 = (Inr (), w2)" "trace w2 = trace w1 @ evs2"
      "client w2 = client w1" "filter is_reconnect_call (calls evs2) = []"
    using Suc.IH [OF c1] by (elim exE conjE) (rule that, assumption+)
  show ?case
    using a b by (intro exI [of _ w2] exI [of _ "evs1 @ evs2"]) (simp add: bindE_def)
qed

lemma keep_alive_iteration_probe_fails:
  "keep_alive_iteration env_probe_fails
     \<lparr>client = Some c, constructed = k, message_queue = q, trace = t\<rparr> =
     (Inr (),
      \<lparr>client = Some c, constructed = k, message_queue = q,
       trace = t @
         [Call (MakeEnquireLink c) None,
          Call (SendPdu c) (Some (LibraryError ''ConnectionError'')),
          Log Error (LogKeepAliveFailed (LibraryError ''ConnectionError'')),
          TimeSleep 5, TimeSleep 30]\<rparr>)"
  by (simp add: keep_alive_iteration_body keep_alive_body_def probing_def prog_defs
        env_probe_fails_def)

text \<open>
  Claim C4, as it stands: three consecutive ticks with a failing probe send give three
  reconnect sequences, a failed probe sending the loop into its reconnecting branch.
  The loop chooses its branch by \<open>client.state\<close> alone. With a session that keeps
  reporting the bound state, three passes send three probes that fail, and no client is
  constructed, unbound or disconnected.
\<close>

theorem keep_alive_probe_failures_no_reconnect:
  "smpp_keep_alive env_probe_fails 3 world_running =
     (Inr (),
      world_running\<lparr>trace :=
         [Call (MakeEnquireLink 0) None,
          Call (SendPdu 0) (Some (LibraryError ''ConnectionError'')),
          Log Error (LogKeepAliveFailed (LibraryError ''ConnectionError'')),
          TimeSleep 5, TimeSleep 30,
          Call (MakeEnquireLink 0) None,
          Call (SendPdu 0) (Some (LibraryError ''ConnectionError'')),
          Log Error (LogKeepAliveFailed (LibraryError ''ConnectionError'')),
          TimeSleep 5, TimeSleep 30,
          Call (MakeEnquireLink 0) None,
          Call (SendPdu 0) (Some (LibraryError ''ConnectionError'')),
          Log Error (LogKeepAliveFailed (LibraryError ''ConnectionError'')),
          TimeSleep 5, TimeSleep 30]\<rparr>) \<and>
   connect_attempts (trace (snd (smpp_keep_alive env_probe_fails 3 world_running))) = 0 \<and>
   filter is_reconnect_call
     (calls (trace (snd (smpp_keep_alive env_probe_fails 3 world_running)))) = []"
  by (simp add: numeral_3_eq_3 bindE_def returnE_def world_running_def
        keep_alive_iteration_probe_fails connect_attempts_def)

text \<open>
  Claim C4, amended: no pass of the loop raises. A pass makes the calls of the probe
  exactly when the client is present and reports the open or the bound state: it builds
  the \<open>enquire_link\<close> PDU and, when that returns, sends it, and it makes no other
  call; it attempts no reconnect and leaves the client in place, whether the probe send
  fails or not, so that as long as the client reports one of these states no number of
  failed probes leads to a reconnect. Otherwise the pass takes the reconnecting branch
  and makes no call of the probe. With no client it makes exactly one reconnect attempt,
  at once. With a client present it calls \<open>unbind\<close> first, and it makes a reconnect
  attempt, exactly one, when \<open>unbind\<close> and \<open>disconnect\<close> of that client have both
  returned, right after them; when one of them raises it makes none.
\<close>

theorem keep_alive_tick:
  "(\<exists>w' evs. keep_alive_iteration en w = (Inr (), w') \<and> trace w' = trace w @ evs \<and>
     (probing en w \<longleftrightarrow> filter is_probe_call (calls evs) \<noteq> []) \<and>
     (probing en w \<longrightarrow>
        client w' = client w \<and> filter is_reconnect_call (calls evs) = [] \<and>
        (\<exists>c. client w = Some c \<and> take 1 (calls evs) = [MakeEnquireLink c] \<and>
             calls evs = (if Call (MakeEnquireLink c) None \<in> set evs
                          then [MakeEnquireLink c, SendPdu c] else [MakeEnquireLink c]))) \<and>
     (\<not> probing en w \<longrightarrow>
        connect_attempts evs \<le> 1 \<and>
        (client w = None \<longrightarrow>
           connect_attempts evs = 1 \<and>
           (\<exists>out post. evs = Log Warning LogReconnecting # Call NewClient out # post)) \<and>
        (\<forall>c. client w = Some c \<longrightarrow>
           take 1 (calls evs) = [Unbind c] \<and>
           (connect_attempts evs = 1 \<longrightarrow>
              (\<exists>out post. evs = Log Warning LogReconnecting # Call (Unbind c) None #
                                  Call (Disconnect c) None # Call NewClient out # post)) \<and>
           (Call (Unbind c) None \<in> set evs \<and> Call (Disconnect c) None \<in> set evs \<longrightarrow>
              connect_attempts evs = 1)))) \<and>
   ((\<forall>tr c. state_of en tr c = SMPP_CLIENT_STATE_OPEN
              \<or> state_of en tr c = SMPP_CLIENT_STATE_BOUND_TRX) \<and> client w \<noteq> None \<longrightarrow>
      (\<exists>w' evs. smpp_keep_alive en n w = (Inr (), w') \<and> trace w' = trace w @ evs \<and>
         client w' = client w \<and> filter is_reconnect_call (calls evs) = []))"
proof (intro conjI impI)
  show "\<exists>w' evs. keep_alive_iteration en w = (Inr (), w') \<and> trace w' = trace w @ evs \<and>
     (probing en w \<longleftrightarrow> filter is_probe_call (calls evs) \<noteq> []) \<and>
     (probing en w \<longrightarrow>
        client w' = client w \<and> filter is_reconnect_call (calls evs) = [] \<and>
        (\<exists>c. client w = Some c \<and> take 1 (calls evs) = [MakeEnquireLink c] \<and>
             calls evs = (if Call (MakeEnquireLink c) None \<in> set evs
                          then [MakeEnquireLink c, SendPdu c] else [MakeEnquireLink c]))) \<and>
     (\<not> probing en w \<longrightarrow>
        connect_attempts evs \<le> 1 \<and>
        (client w = None \<longrightarrow>
           connect_attempts evs = 1 \<and>
           (\<exists>out post. evs = Log Warning LogReconnecting # Call NewClient out # post)) \<and>
        (\<forall>c. client w = Some c \<longrightarrow>
           take 1 (calls evs) = [Unbind c] \<and>
           (connect_attempts evs = 1 \<longrightarrow>
              (\<exists>out post. evs = Log Warning LogReconnecting # Call (Unbind c) None #
                                  Call (Disconnect c) None # Call NewClient out # post)) \<and>
           (Call (Unbind c) None \<in> set evs \<and> Call (Disconnect c) None \<in> set evs \<longrightarrow>
              connect_attempts evs = 1)))"
    by (rule keep_alive_iteration_branches)
next
  assume h: "(\<forall>tr c. state_of en tr c = SMPP_CLIENT_STATE_OPEN
              \<or> state_of en tr c = SMPP_CLIENT_STATE_BOUND_TRX) \<and> client w \<noteq> None"
  then have h1: "\<forall>tr c. state_of en tr c = SMPP_CLIENT_STATE_OPEN
              \<or> state_of en tr c = SMPP_CLIENT_STATE_BOUND_TRX" and h2: "client w \<noteq> None"
    by blast+
  show "\<exists>w' evs. smpp_keep_alive en n w = (Inr (), w') \<and> trace w' = trace w @ evs \<and>
         client w' = client w \<and> filter is_reconnect_call (calls evs) = []"
    by (rule smpp_keep_alive_bound_no_reconnect [OF h1 h2])
qed

lemma keep_alive_iteration_env_closed:
  "keep_alive_iteration env_closed world_running =
     (Inr (),
      \<lparr>client = Some 1, constructed = 2, message_queue = [],
       trace = [Log Warning LogReconnecting, Call (Unbind 0) None, Call (Disconnect 0) None,
                Call NewClient None, Call (Connect 1) None, Call (BindTransceiver 1) None,
                Call (SetMessageReceivedHandler 1) None, Call (StartListenThread 1) None,
                Log Info LogConnected, TimeSleep 30]\<rparr>)"
  by (simp add: keep_alive_iteration_body keep_alive_body_def probing_def teardown_def
        connect_smpp_def prog_defs env_closed_def world_running_def)

lemma keep_alive_iteration_env_stale:
  "keep_alive_iteration env_stale world_running =
     (Inr (),
      world_running\<lparr>trace :=
         [Log Warning LogReconnecting, Call (Unbind 0) (Some (LibraryError ''PDUError'')),
          Log Error (LogKeepAliveFailed (LibraryError ''PDUError'')),
          TimeSleep 5, TimeSleep 30]\<rparr>)"
  by (simp add: keep_alive_iteration_body keep_alive_body_def probing_def teardown_def
        prog_defs env_stale_def world_running_def)

text \<open>
  A stale client in the closed state: with a library in which every call returns the
  pass unbinds, disconnects and reconnects; with one in which \<open>unbind\<close> raises the
  pass ends there. A bound client whose probes fail: three passes, no reconnect.
\<close>

theorem keep_alive_tick_witness:
  "\<not> probing env_closed world_running \<and> client world_running = Some 0 \<and>
   keep_alive_iteration env_closed world_running =
     (Inr (),
      \<lparr>client = Some 1, constructed = 2, message_queue = [],
       trace = [Log Warning LogReconnecting, Call (Unbind 0) None, Call (Disconnect 0) None,
                Call NewClient None, Call (Connect 1) None, Call (BindTransceiver 1) None,
                Call (SetMessageReceivedHandler 1) None, Call (StartListenThread 1) None,
                Log Info LogConnected, TimeSleep 30]\<rparr>) \<and>
   \<not> probing env_stale world_running \<and>
   keep_alive_iteration env_stale world_running =
     (Inr (),
      world_running\<lparr>trace :=
         [Log Warning LogReconnecting, Call (Unbind 0) (Some (LibraryError ''PDUError'')),
          Log Error (LogKeepAliveFailed (LibraryError ''PDUError'')),
          TimeSleep 5, TimeSleep 30]\<rparr>) \<and>
   probing env_probe_fails world_running \<and>
   (\<forall>tr c. state_of env_probe_fails tr c = SMPP_CLIENT_STATE_OPEN
              \<or> state_of env_probe_fails tr c = SMPP_CLIENT_STATE_BOUND_TRX) \<and>
   client world_running \<noteq> None \<and>
   (\<exists>w' evs. smpp_keep_alive env_probe_fails 3 world_running = (Inr (), w') \<and>
       trace w' = trace world_running @ evs \<and> filter is_reconnect_call (calls evs) = [])"
proof -
  have np: "\<not> probing env_closed world_running"
    by (simp add: probing_def world_running_def env_closed_def)
  have ns: "\<not> probing env_stale world_running"
    by (simp add: probing_def world_running_def env_stale_def)
  have p: "probing env_probe_fails world_running"
    by (simp add: probing_def world_running_def env_probe_fails_def)
  have st: "\<forall>tr c. state_of env_probe_fails tr c = SMPP_CLIENT_STATE_OPEN
              \<or> state_of env_probe_fails tr c = SMPP_CLIENT_STATE_BOUND_TRX"
    by (simp add: env_probe_fails_def)
  have c: "client world_running = Some 0" by (simp add: world_running_def)
  have l: "\<exists>w' evs. smpp_keep_alive env_probe_fails 3 world_running = (Inr (), w') \<and>
       trace w' = trace world_running @ evs \<and> filter is_reconnect_call (calls evs) = []"
    using keep_alive_tick [of env_probe_fails world_running 3] st c by auto
  show ?thesis
    using np ns p st c l keep_alive_iteration_env_closed keep_alive_iteration_env_stale
    by simp
qed

section \<open>The chat handler\<close>

lemma py_split_first:
  "py_split sep (Suc 0) s =
     (if sep \<in> set s
      then [takeWhile (\<lambda>c. c \<noteq> sep) s, tl (dropWhile (\<lambda>c. c \<noteq> sep) s)] else [s])"
  by simp

lemma split_at_first:
  assumes "sep \<in> set s"
  shows "s = takeWhile (\<lambda>c. c \<noteq> sep) s @ sep # tl (dropWhile (\<lambda>c. c \<noteq> sep) s)"
proof -
  have ne: "dropWhile (\<lambda>c. c \<noteq> sep) s \<noteq> []"
    using assms by (auto simp: dropWhile_eq_Nil_conv)
  then have "hd (dropWhile (\<lambda>c. c \<noteq> sep) s) = sep"
    using hd_dropWhile [of "\<lambda>c. c \<noteq> sep" s] by simp
  then have "dropWhile (\<lambda>c. c \<noteq> sep) s = sep # tl (dropWhile (\<lambda>c. c \<noteq> sep) s)"
    using ne by (cases "dropWhile (\<lambda>c. c \<noteq> sep) s") auto
  then show ?thesis
    using takeWhile_dropWhile_id [of "\<lambda>c. c \<noteq> sep" s] by simp
qed

lemma try_except_returns:
  assumes "\<And>e w1. \<exists>x w2. handler e w1 = (Inr x, w2)"
  shows "\<exists>x w'. try_except body except_Exception handler w = (Inr x, w')"
proof (cases "body w")
  case (Pair r w1)
  show ?thesis
  proof (cases r)
    case (Inl e)
    then show ?thesis
      using assms [of e w1] Pair by (simp add: try_except_def except_Exception_def)
  next
    case (Inr x)
    then show ?thesis
      using Pair by (simp add: try_except_def)
  qed
qed

lemma send_sms_returns: "\<exists>ok w'. send_sms en p m w = (Inr ok, w')"
  unfolding send_sms_def
  by (rule try_except_returns) (auto simp: bindE_def logger_def emit_event_def returnE_def)

lemma handle_message_no_space:
  assumes "sep = 0x20" "sep \<notin> set user_message"
  shows "handle_message en user_message w = lib_call en (ReplyText ReplyFormatError) w"
  using assms
  by (simp add: handle_message_def unpack2_def liftE_def bindE_def try_except_def
        except_ValueError_def)

lemma handle_message_space:
  assumes "sep = 0x20" "sep \<in> set user_message"
      and "send_sms en (takeWhile (\<lambda>c. c \<noteq> sep) user_message)
             (tl (dropWhile (\<lambda>c. c \<noteq> sep) user_message)) w = (Inr ok, w1)"
  shows "handle_message en user_message w =
     try_except
       (lib_call en (ReplyText
          (if ok then ReplySent (tl (dropWhile (\<lambda>c. c \<noteq> sep) user_message))
                        (takeWhile (\<lambda>c. c \<noteq> sep) user_message)
           else ReplySendFailed)))
       except_ValueError
       (\<lambda>e. lib_call en (ReplyText ReplyFormatError)) w1"
  using assms
  by (simp add: handle_message_def unpack2_def liftE_def bindE_def try_except_def
        split: prod.splits sum.splits)

text \<open>
  Claim C9: a chat message without a space gets the format-error reply and nothing
  else happens, so \<open>send_sms\<close> is not called; a chat message with a space is cut at
  its first space, \<open>send_sms\<close> is called with the part before it as the number and
  the part after it as the text, and the reply tells its result.
\<close>

theorem handle_message_split:
  "((0x20::nat) \<notin> set user_message \<longrightarrow>
      handle_message en user_message w = lib_call en (ReplyText ReplyFormatError) w \<and>
      calls (new_events w (snd (handle_message en user_message w))) =
        [ReplyText ReplyFormatError]) \<and>
   ((0x20::nat) \<in> set user_message \<longrightarrow>
      (\<exists>phone_number message ok w1.
         user_message = phone_number @ 0x20 # message \<and> 0x20 \<notin> set phone_number \<and>
         send_sms en phone_number message w = (Inr ok, w1) \<and>
         handle_message en user_message w =
           try_except
             (lib_call en (ReplyText (if ok then ReplySent message phone_number
                                      else ReplySendFailed)))
             except_ValueError
             (\<lambda>e. lib_call en (ReplyText ReplyFormatError)) w1))"
proof (intro conjI impI)
  assume n: "(0x20::nat) \<notin> set user_message"
  show "handle_message en user_message w = lib_call en (ReplyText ReplyFormatError) w"
    using handle_message_no_space [OF refl n] .
  then show "calls (new_events w (snd (handle_message en user_message w))) =
        [ReplyText ReplyFormatError]"
    by (simp add: lib_call_def new_events_def split: option.splits)
next
  assume s: "(0x20::nat) \<in> set user_message"
  let ?a = "takeWhile (\<lambda>c. c \<noteq> 0x20) user_message"
  let ?b = "tl (dropWhile (\<lambda>c. c \<noteq> 0x20) user_message)"
  obtain ok w1 where r: "send_sms en ?a ?b w = (Inr ok, w1)"
    using send_sms_returns by blast
  have "user_message = ?a @ 0x20 # ?b" using split_at_first [OF s] .
  moreover have "0x20 \<notin> set ?a"
    using set_takeWhileD [of "0x20" "\<lambda>c. c \<noteq> 0x20" user_message] by blast
  moreover note r handle_message_space [OF refl s r]
  ultimately show "\<exists>phone_number message ok w1.
         user_message = phone_number @ 0x20 # message \<and> 0x20 \<notin> set phone_number \<and>
         send_sms en phone_number message w = (Inr ok, w1) \<and>
         handle_message en user_message w =
           try_except
             (lib_call en (ReplyText (if ok then ReplySent message phone_number
                                      else ReplySendFailed)))
             except_ValueError
             (\<lambda>e. lib_call en (ReplyText ReplyFormatError)) w1"
    by blast
qed

theorem handle_message_split_witness:
  "(0x20::nat) \<notin> set [0x48, 0x69] \<and>
   handle_message env_up [0x48, 0x69] world_running =
     (Inr (), world_running\<lparr>trace := [Call (ReplyText ReplyFormatError) None]\<rparr>) \<and>
   (0x20::nat) \<in> set [0x31, 0x32, 0x33, 0x20, 0x48, 0x69] \<and>
   handle_message env_up [0x31, 0x32, 0x33, 0x20, 0x48, 0x69] world_running =
     (Inr (),
      world_running\<lparr>trace :=
        [Call (SendMessage 0 (submit_of [0x31, 0x32, 0x33] [0, 0x48, 0, 0x69])) None,
         Log Info (LogSmsSent [0x31, 0x32, 0x33] [0x48, 0x69]),
         Call (ReplyText (ReplySent [0x48, 0x69] [0x31, 0x32, 0x33])) None]\<rparr>)"
proof -
  have nb: "\<not> not_bound env_up world_running"
    by (simp add: not_bound_def world_running_def env_up_def)
  have c: "client world_running = Some 0" by (simp add: world_running_def)
  have s: "send_sms env_up [0x31, 0x32, 0x33] [0x48, 0x69] world_running =
     (Inr True,
      world_running\<lparr>trace :=
        [Call (SendMessage 0 (submit_of [0x31, 0x32, 0x33] [0, 0x48, 0, 0x69])) None,
         Log Info (LogSmsSent [0x31, 0x32, 0x33] [0x48, 0x69])]\<rparr>)"
    using send_sms_bound [OF nb encode_Hi c, of "[0x31, 0x32, 0x33]"]
    by (simp add: submit_def env_up_def world_running_def)
  have h: "handle_message env_up [0x31, 0x32, 0x33, 0x20, 0x48, 0x69] world_running =
     (Inr (),
      world_running\<lparr>trace :=
        [Call (SendMessage 0 (submit_of [0x31, 0x32, 0x33] [0, 0x48, 0, 0x69])) None,
         Log Info (LogSmsSent [0x31, 0x32, 0x33] [0x48, 0x69]),
         Call (ReplyText (ReplySent [0x48, 0x69] [0x31, 0x32, 0x33])) None]\<rparr>)"
    using handle_message_space [of "0x20" "[0x31, 0x32, 0x33, 0x20, 0x48, 0x69]" env_up
        world_running True] s
    by (simp add: try_except_def lib_call_def env_up_def world_running_def)
  have n: "handle_message env_up [0x48, 0x69] world_running =
     (Inr (), world_running\<lparr>trace := [Call (ReplyText ReplyFormatError) None]\<rparr>)"
    using handle_message_split [of "[0x48, 0x69]" env_up world_running]
    by (simp add: lib_call_def env_up_def world_running_def)
  show ?thesis using n h by simp
qed

end
